theory Spec2Isabelle
  imports Complex_Main "HOL-Library.Monad_Syntax"
begin

section \<open>Eigen vectors of decision variables\<close>

text \<open>
  A decision variable is identified by the position at which the mathematical program
  created it.  A \<open>VectorXDecisionVariable\<close> is a list of such identifiers.  The C++
  \<open>int\<close> values of the source are integers here.  Where an \<open>int\<close> is computed that
  becomes the size of a block of variables (a number of knots, of states, of rows
  times knots), the value is taken with the wrap-around of a 32-bit \<open>int\<close> (\<open>int32\<close>
  below); the arithmetic of indices is exact, and an index outside its vector stops the
  run.  Values of type \<open>double\<close>: the constructor only stores them, and
  \<open>DoAddRunningCost\<close> writes them into symbolic expressions; there they are real
  numbers.  \<open>SetInitialForceTrajectory\<close> computes with them, and its arithmetic is a
  parameter.
\<close>

type_synonym var = nat
type_synonym vars = "var list"

text \<open>
  \<open>v.segment(start, n)\<close>.  Eigen asserts \<open>0 \<le> start\<close>, \<open>0 \<le> n\<close> and
  \<open>start + n \<le> v.size()\<close>; the failed assertion is the value \<open>None\<close>.
\<close>

definition segment :: "'a list \<Rightarrow> int \<Rightarrow> int \<Rightarrow> 'a list option" where
  "segment v start n =
     (if 0 \<le> start \<and> 0 \<le> n \<and> start + n \<le> int (length v)
      then Some (take (nat n) (drop (nat start) v)) else None)"

text \<open>
  \<open>v[i]\<close> on a \<open>std::vector\<close> and \<open>v(i)\<close> on an Eigen vector.  Reading out of range
  is undefined in C++; it is the value \<open>None\<close> here, so that it is never silently
  given a meaning.  \<open>store\<close> is the assignment \<open>v[i] = x\<close>, and \<open>assign_segment\<close> the
  assignment \<open>v.segment(start, n) = xs\<close>, which Eigen also refuses when \<open>xs\<close> does not
  have \<open>n\<close> rows.
\<close>

definition elem_at :: "'a list \<Rightarrow> int \<Rightarrow> 'a option" where
  "elem_at v i = (if 0 \<le> i \<and> i < int (length v) then Some (v ! nat i) else None)"

definition store :: "'a list \<Rightarrow> int \<Rightarrow> 'a \<Rightarrow> 'a list option" where
  "store v i x = (if 0 \<le> i \<and> i < int (length v) then Some (v[nat i := x]) else None)"

definition assign_segment :: "'a list \<Rightarrow> int \<Rightarrow> int \<Rightarrow> 'a list \<Rightarrow> 'a list option" where
  "assign_segment v start n xs =
     (if 0 \<le> start \<and> 0 \<le> n \<and> start + n \<le> int (length v) \<and> int (length xs) = n
      then Some (take (nat start) v @ xs @ drop (nat (start + n)) v) else None)"

text \<open>
  The value that a 32-bit \<open>int\<close> holds after an operation whose exact result is \<open>x\<close>.
\<close>

definition int32 :: "int \<Rightarrow> int" where
  "int32 x = (x + 2 ^ 31) mod 2 ^ 32 - 2 ^ 31"

text \<open>
  Eigen's comma initialiser \<open>m << b\<^sub>1, \<dots>, b\<^sub>n\<close> writes the blocks \<open>b\<^sub>1, \<dots>, b\<^sub>n\<close>
  one below the other into the vector \<open>m\<close>.  It never resizes \<open>m\<close>: it asserts that the
  blocks fit into the rows of \<open>m\<close> and, at the end, that they have filled them.  \<open>rows\<close>
  is the number of rows of \<open>m\<close>; a failed assertion is the value \<open>None\<close>.
\<close>

definition comma_initializer :: "nat \<Rightarrow> 'a list list \<Rightarrow> 'a list option" where
  "comma_initializer rows blocks =
     (if length (concat blocks) = rows then Some (concat blocks) else None)"

section \<open>Inputs of the transcription\<close>

text \<open>
  The constructor reads three numbers of the \<open>RigidBodyTree\<close>; of a kinematic constraint
  object its length and its number of force constraints; of a constraint set its row
  count and its constraint objects; of the options of a mode the five values below.  The
  type of a start or end option is declared outside the files at hand and is a type
  parameter.
\<close>

record RigidBodyTree =
  get_num_positions :: int
  get_num_velocities :: int
  get_num_actuators :: int

record DirconKinematicData =
  getLength :: int
  numForceConstraints :: int

record DirconKinematicDataSet =
  countConstraints :: int
  constraint_objects :: "DirconKinematicData list"

definition getNumConstraintObjects :: "DirconKinematicDataSet \<Rightarrow> int" where
  "getNumConstraintObjects d = int (length (constraint_objects d))"

definition getConstraint :: "DirconKinematicDataSet \<Rightarrow> int \<Rightarrow> DirconKinematicData option" where
  "getConstraint d j = elem_at (constraint_objects d) j"

record 'ty DirconOptions =
  getNumRelative :: int
  getConstraintsRelative :: "bool list"
  getStartType :: 'ty
  getEndType :: 'ty
  getForceCost :: real

section \<open>The mathematical program\<close>

text \<open>
  The constraint objects that the constructor creates and binds to variables:
  \<^item> \<open>DirconDynamicConstraint i\<close>: the object made from \<open>tree\<close> and \<open>*constraints_[i]\<close>;
  \<^item> \<open>DirconKinematicConstraint i rel ty\<close>: made from \<open>tree\<close>, \<open>*constraints_[i]\<close>,
    the relative flags and, when \<open>ty\<close> is not \<open>None\<close>, a start or end type;
  \<^item> \<open>ForceConstraint i j k\<close>: \<open>constraints_[i]->getConstraint(j)->getForceConstraint(k)\<close>.

  A binding is a constraint together with the blocks of variables it is added over.
\<close>

datatype 'ty evaluator =
    DirconDynamicConstraint int
  | DirconKinematicConstraint int "bool list" "'ty option"
  | ForceConstraint int int int

datatype 'ty binding =
    BoundingBoxConstraint real real vars
  | LinearConstraintEq vars vars
  | Binding "'ty evaluator" "vars list"

text \<open>
  \<open>RunningCost a k hs\<close> is the cost \<open>a * g\<^sub>k * (\<Sum> hs)\<close>: the running cost \<open>g\<close> with the
  placeholder variables replaced by those of knot \<open>k\<close>, times a sum of timestep
  variables, times a constant.
\<close>

datatype cost =
    L2NormCost int vars
  | RunningCost real int vars

datatype failure = AssertionFailure | OutOfRange | BadSize

text \<open>
  The state of the object under construction: the fields of \<open>MathematicalProgram\<close> and
  \<open>MultipleShooting\<close> that the source reads or writes, then the members of
  \<open>HybridDircon\<close> (a member \<open>name_\<close> of the source is the field \<open>name_fld\<close>).
\<close>

record 'ty program =
  num_vars :: nat
  added_constraints :: "'ty binding list"
  costs :: "cost list"
  num_inputs :: int
  num_states :: int
  N :: int
  h_vars :: vars
  x_vars :: vars
  u_vars :: vars
  tree_fld :: RigidBodyTree
  constraints_fld :: "DirconKinematicDataSet list"
  num_modes_fld :: int
  mode_lengths_fld :: "int list"
  mode_start_fld :: "int list"
  num_kinematic_constraints_fld :: "int list"
  force_vars_fld :: "vars list"
  collocation_force_vars_fld :: "vars list"
  collocation_slack_vars_fld :: "vars list"
  offset_vars_fld :: "vars list"
  v_post_impact_vars_fld :: vars

text \<open>
  A run either completes with a value or stops: at a failed \<open>DRAKE_ASSERT\<close>, at an
  access out of range (an index outside its vector, or a block that the comma
  initialiser cannot place), or at a negative size.  A stopped run keeps the state the
  object had reached.
\<close>

type_synonym ('ty, 'a) run = "(failure \<times> 'ty program) + 'a"

definition outcome :: "('ty, 'ty program) run \<Rightarrow> 'ty program" where
  "outcome r = (case r of Inl (f, p) \<Rightarrow> p | Inr p \<Rightarrow> p)"

definition and_then :: "'e + 'a \<Rightarrow> ('a \<Rightarrow> 'e + 'b) \<Rightarrow> 'e + 'b" where
  "and_then m f = (case m of Inl e \<Rightarrow> Inl e | Inr a \<Rightarrow> f a)"

definition demand :: "'ty program \<Rightarrow> 'a option \<Rightarrow> ('ty, 'a) run" where
  "demand p x = (case x of None \<Rightarrow> Inl (OutOfRange, p) | Some a \<Rightarrow> Inr a)"

definition require :: "'a option \<Rightarrow> failure + 'a" where
  "require x = (case x of None \<Rightarrow> Inl OutOfRange | Some a \<Rightarrow> Inr a)"

text \<open>The loop \<open>for (int j = j0; j < n; j++) body\<close>, stopping at the first failure.\<close>

function for_loop :: "int \<Rightarrow> int \<Rightarrow> (int \<Rightarrow> 's \<Rightarrow> 'e + 's) \<Rightarrow> 's \<Rightarrow> 'e + 's" where
  "for_loop j n body s =
     (if j < n then and_then (body j s) (for_loop (j + 1) n body) else Inr s)"
  by pat_completeness auto
termination
  by (relation "measure (\<lambda>(j, n, body, s). nat (n - j))") auto

declare for_loop.simps [simp del]

definition NewContinuousVariables :: "int \<Rightarrow> 'ty program \<Rightarrow> ('ty, vars \<times> 'ty program) run" where
  "NewContinuousVariables rows p =
     (if rows < 0 then Inl (BadSize, p)
      else Inr ([num_vars p ..< num_vars p + nat rows],
                p\<lparr>num_vars := num_vars p + nat rows\<rparr>))"

definition AddConstraint :: "'ty binding \<Rightarrow> 'ty program \<Rightarrow> 'ty program" where
  "AddConstraint b p = p\<lparr>added_constraints := added_constraints p @ [b]\<rparr>"

definition AddCost :: "cost \<Rightarrow> 'ty program \<Rightarrow> 'ty program" where
  "AddCost c p = p\<lparr>costs := costs p @ [c]\<rparr>"

section \<open>The base class\<close>

text \<open>
  \<open>MultipleShooting\<close> belongs to the optimisation library, not to this repository.  Of its
  constructor the model keeps what the source relies on: it creates \<open>N - 1\<close> timestep
  variables, \<open>num_states * N\<close> state variables and \<open>num_inputs * N\<close> input variables, in
  this order, and bounds every timestep; what the library demands of its arguments is
  not part of the model.  \<open>timestep\<close>, \<open>state\<close> and \<open>input\<close> are its
  accessors: the block of one knot within \<open>h_vars\<close>, \<open>x_vars\<close> and \<open>u_vars\<close>.  The members
  of \<open>HybridDircon\<close> start empty; \<open>tree_\<close>, a pointer without a value before its
  assignment, holds the tree from the start.
\<close>

definition timestep :: "'ty program \<Rightarrow> int \<Rightarrow> vars option" where
  "timestep p index = segment (h_vars p) index 1"

definition state :: "'ty program \<Rightarrow> int \<Rightarrow> vars option" where
  "state p index = segment (x_vars p) (index * num_states p) (num_states p)"

definition input :: "'ty program \<Rightarrow> int \<Rightarrow> vars option" where
  "input p index = segment (u_vars p) (index * num_inputs p) (num_inputs p)"

definition MultipleShooting ::
  "int \<Rightarrow> int \<Rightarrow> int \<Rightarrow> real \<Rightarrow> real \<Rightarrow> RigidBodyTree \<Rightarrow> ('ty, 'ty program) run" where
  "MultipleShooting n_inputs n_states num_time_samples minimum_timestep maximum_timestep tree =
     and_then (NewContinuousVariables (int32 (num_time_samples - 1))
       \<lparr>num_vars = 0, added_constraints = [], costs = [],
        num_inputs = n_inputs, num_states = n_states, N = num_time_samples,
        h_vars = [], x_vars = [], u_vars = [],
        tree_fld = tree, constraints_fld = [],
        num_modes_fld = 0, mode_lengths_fld = [], mode_start_fld = [],
        num_kinematic_constraints_fld = [],
        force_vars_fld = [], collocation_force_vars_fld = [],
        collocation_slack_vars_fld = [], offset_vars_fld = [],
        v_post_impact_vars_fld = []\<rparr>) (\<lambda>(h, p1).
     and_then (NewContinuousVariables (int32 (n_states * num_time_samples))
                 (p1\<lparr>h_vars := h\<rparr>)) (\<lambda>(x, p2).
     and_then (NewContinuousVariables (int32 (n_inputs * num_time_samples))
                 (p2\<lparr>x_vars := x\<rparr>)) (\<lambda>(u, p3).
     Inr (AddConstraint (BoundingBoxConstraint minimum_timestep maximum_timestep h)
            (p3\<lparr>u_vars := u\<rparr>)))))"

section \<open>Accessors of HybridDircon\<close>

text \<open>
  The accessors \<open>num_kinematic_constraints(i)\<close>, \<open>force_vars(i)\<close>,
  \<open>collocation_force_vars(i)\<close>, \<open>collocation_slack_vars(i)\<close>, \<open>offset_vars(i)\<close> and
  \<open>force(i, j)\<close> are declared in the header; they read entry \<open>i\<close> of the member of the
  same name, and \<open>force(i, j)\<close> is the block of knot \<open>j\<close> within \<open>force_vars(i)\<close>.
  \<open>v_post_impact_vars_by_mode\<close> and \<open>state_vars_by_mode\<close> are defined in the source
  file.  In \<open>state_vars_by_mode\<close> the vector \<open>ret\<close> is declared without a size, so it
  has no rows when the comma initialiser writes into it; the block that is returned
  refers to \<open>ret\<close>, and the model returns its content.
\<close>

definition num_kinematic_constraints :: "'ty program \<Rightarrow> int \<Rightarrow> int option" where
  "num_kinematic_constraints p mode = elem_at (num_kinematic_constraints_fld p) mode"

definition force_vars :: "'ty program \<Rightarrow> int \<Rightarrow> vars option" where
  "force_vars p mode = elem_at (force_vars_fld p) mode"

definition collocation_force_vars :: "'ty program \<Rightarrow> int \<Rightarrow> vars option" where
  "collocation_force_vars p mode = elem_at (collocation_force_vars_fld p) mode"

definition collocation_slack_vars :: "'ty program \<Rightarrow> int \<Rightarrow> vars option" where
  "collocation_slack_vars p mode = elem_at (collocation_slack_vars_fld p) mode"

definition offset_vars :: "'ty program \<Rightarrow> int \<Rightarrow> vars option" where
  "offset_vars p mode = elem_at (offset_vars_fld p) mode"

definition force :: "'ty program \<Rightarrow> int \<Rightarrow> int \<Rightarrow> vars option" where
  "force p mode index = do {
     fv \<leftarrow> force_vars p mode;
     c \<leftarrow> num_kinematic_constraints p mode;
     segment fv (index * c) c }"

definition v_post_impact_vars_by_mode :: "'ty program \<Rightarrow> int \<Rightarrow> vars option" where
  "v_post_impact_vars_by_mode p mode =
     segment (v_post_impact_vars_fld p) (mode * get_num_velocities (tree_fld p))
       (get_num_velocities (tree_fld p))"

definition state_vars_by_mode :: "'ty program \<Rightarrow> int \<Rightarrow> int \<Rightarrow> vars option" where
  "state_vars_by_mode p mode time_index =
     (if time_index = 0 \<and> mode > 0 then do {
        ms \<leftarrow> elem_at (mode_start_fld p) mode;
        q \<leftarrow> segment (x_vars p) (ms + time_index) (get_num_positions (tree_fld p));
        v \<leftarrow> v_post_impact_vars_by_mode p mode;
        ret \<leftarrow> comma_initializer 0 [q, v];
        segment ret 0 (num_states p) }
      else do {
        ms \<leftarrow> elem_at (mode_start_fld p) mode;
        x \<leftarrow> segment (x_vars p) (ms + time_index) (num_states p);
        ret \<leftarrow> comma_initializer 0 [x];
        segment ret 0 (num_states p) })"

section \<open>The constructor\<close>

text \<open>
  The body of the loop over the modes, one definition for each of its commented parts,
  in the order of the source.
\<close>

definition set_timestep_bounds ::
  "real list \<Rightarrow> real list \<Rightarrow> int \<Rightarrow> 'ty program \<Rightarrow> ('ty, 'ty program) run" where
  "set_timestep_bounds minimum_timestep maximum_timestep i p =
     and_then (demand p (elem_at (mode_lengths_fld p) i)) (\<lambda>len.
     and_then (for_loop 0 len (\<lambda>j q.
         and_then (demand q (do {
             lo \<leftarrow> elem_at minimum_timestep i;
             hi \<leftarrow> elem_at maximum_timestep i;
             h \<leftarrow> timestep q j;
             Some (BoundingBoxConstraint lo hi h) }))
           (\<lambda>b. Inr (AddConstraint b q))) p) (\<lambda>p1.
     for_loop 0 (len - 1) (\<lambda>j q.
         and_then (demand q (do {
             a \<leftarrow> timestep q j;
             b \<leftarrow> timestep q (j + 1);
             Some (LinearConstraintEq a b) }))
           (\<lambda>b. Inr (AddConstraint b q))) p1))"

definition init_decision_variables ::
  "int list \<Rightarrow> 'ty DirconOptions list \<Rightarrow> int \<Rightarrow> 'ty program \<Rightarrow> ('ty, 'ty program) run" where
  "init_decision_variables num_time_samples options i p =
     and_then (demand p (elem_at (constraints_fld p) i)) (\<lambda>ci.
     and_then (demand p (elem_at num_time_samples i)) (\<lambda>n.
     and_then (NewContinuousVariables (int32 (countConstraints ci * n)) p) (\<lambda>(l, p1).
     let p1 = p1\<lparr>force_vars_fld := force_vars_fld p1 @ [l]\<rparr> in
     and_then (NewContinuousVariables (int32 (countConstraints ci * int32 (n - 1))) p1)
       (\<lambda>(lc, p2).
     let p2 = p2\<lparr>collocation_force_vars_fld := collocation_force_vars_fld p2 @ [lc]\<rparr> in
     and_then (NewContinuousVariables (int32 (countConstraints ci * int32 (n - 1))) p2)
       (\<lambda>(vc, p3).
     let p3 = p3\<lparr>collocation_slack_vars_fld := collocation_slack_vars_fld p3 @ [vc]\<rparr> in
     and_then (demand p3 (elem_at options i)) (\<lambda>oi.
     and_then (NewContinuousVariables (getNumRelative oi) p3) (\<lambda>(off, p4).
     let p4 = p4\<lparr>offset_vars_fld := offset_vars_fld p4 @ [off]\<rparr> in
     and_then (NewContinuousVariables (get_num_velocities (tree_fld p4)) p4) (\<lambda>(vp, p5).
     Inr (p5\<lparr>v_post_impact_vars_fld := vp\<rparr>)))))))))"

definition dynamic_constraint_vars :: "'ty program \<Rightarrow> int \<Rightarrow> int \<Rightarrow> vars list option" where
  "dynamic_constraint_vars p i j = do {
     ms \<leftarrow> elem_at (mode_start_fld p) i;
     let time_index = ms + j;
     h \<leftarrow> segment (h_vars p) time_index 1;
     x0 \<leftarrow> state_vars_by_mode p i j;
     x1 \<leftarrow> state_vars_by_mode p i (j + 1);
     u \<leftarrow> segment (u_vars p) (time_index * num_inputs p) (num_inputs p * 2);
     fv \<leftarrow> force_vars p i;
     c \<leftarrow> num_kinematic_constraints p i;
     l \<leftarrow> segment fv (j * c) (c * 2);
     cfv \<leftarrow> collocation_force_vars p i;
     lc \<leftarrow> segment cfv (j * c) c;
     csv \<leftarrow> collocation_slack_vars p i;
     vc \<leftarrow> segment csv (j * c) c;
     Some [h, x0, x1, u, l, lc, vc] }"

definition add_dynamic_constraints :: "int \<Rightarrow> 'ty program \<Rightarrow> ('ty, 'ty program) run" where
  "add_dynamic_constraints i p =
     and_then (demand p (elem_at (mode_lengths_fld p) i)) (\<lambda>len.
     for_loop 0 (len - 1) (\<lambda>j q.
       and_then (demand q (dynamic_constraint_vars q i j))
         (\<lambda>vs. Inr (AddConstraint (Binding (DirconDynamicConstraint i) vs) q))) p)"

text \<open>
  The four blocks a kinematic constraint is added over at knot \<open>j\<close> of mode \<open>i\<close>;
  \<open>u_start\<close> is the first argument of \<open>u_vars().segment\<close>, which the three call sites
  compute differently.
\<close>

definition kinematic_constraint_vars ::
  "'ty program \<Rightarrow> int \<Rightarrow> int \<Rightarrow> int \<Rightarrow> vars list option" where
  "kinematic_constraint_vars p i j u_start = do {
     x \<leftarrow> state_vars_by_mode p i j;
     u \<leftarrow> segment (u_vars p) u_start (num_inputs p);
     fv \<leftarrow> force_vars p i;
     c \<leftarrow> num_kinematic_constraints p i;
     l \<leftarrow> segment fv (j * c) c;
     off \<leftarrow> offset_vars p i;
     Some [x, u, l, off] }"

definition add_kinematic_constraints ::
  "'ty DirconOptions list \<Rightarrow> int \<Rightarrow> 'ty program \<Rightarrow> ('ty, 'ty program) run" where
  "add_kinematic_constraints options i p =
     and_then (demand p (elem_at options i)) (\<lambda>oi.
     and_then (demand p (elem_at (mode_lengths_fld p) i)) (\<lambda>len.
     and_then (for_loop 1 (len - 1) (\<lambda>j q.
         and_then (demand q (do {
             ms \<leftarrow> elem_at (mode_start_fld q) i;
             let time_index = ms + j;
             kinematic_constraint_vars q i j (time_index * num_inputs q) }))
           (\<lambda>vs. Inr (AddConstraint
              (Binding (DirconKinematicConstraint i (getConstraintsRelative oi) None) vs) q))) p)
       (\<lambda>p1.
     and_then (demand p1 (do {
         ms \<leftarrow> elem_at (mode_start_fld p1) i;
         kinematic_constraint_vars p1 i 0 ms })) (\<lambda>vs.
     let p2 = AddConstraint
           (Binding (DirconKinematicConstraint i (getConstraintsRelative oi)
              (Some (getStartType oi))) vs) p1 in
     and_then (demand p2 (do {
         ms \<leftarrow> elem_at (mode_start_fld p2) i;
         kinematic_constraint_vars p2 i (len - 1) ((ms + len - 1) * num_inputs p2) })) (\<lambda>vs.
     Inr (AddConstraint
           (Binding (DirconKinematicConstraint i (getConstraintsRelative oi)
              (Some (getEndType oi))) vs) p2))))))"

definition add_force_constraints :: "int \<Rightarrow> 'ty program \<Rightarrow> ('ty, 'ty program) run" where
  "add_force_constraints i p =
     and_then (demand p (elem_at (mode_lengths_fld p) i)) (\<lambda>len.
     for_loop 0 (len - 1) (\<lambda>l q.
       and_then (demand q (num_kinematic_constraints q i)) (\<lambda>c.
       and_then (demand q (elem_at (constraints_fld q) i)) (\<lambda>ci.
       and_then (for_loop 0 (getNumConstraintObjects ci) (\<lambda>j (start_index, q1).
           and_then (demand q1 (getConstraint ci j)) (\<lambda>constraint_j.
           let start_index = start_index + getLength constraint_j in
           and_then (for_loop 0 (numForceConstraints constraint_j) (\<lambda>k q2.
               and_then (demand q2 (do {
                   fv \<leftarrow> force_vars q2 i;
                   segment fv start_index (getLength constraint_j) }))
                 (\<lambda>vs. Inr (AddConstraint (Binding (ForceConstraint i j k) [vs]) q2))) q1)
             (\<lambda>q3. Inr (start_index, q3)))) (l * c, q))
         (\<lambda>(start_index, q4). Inr q4)))) p)"

definition add_force_cost ::
  "'ty DirconOptions list \<Rightarrow> int \<Rightarrow> 'ty program \<Rightarrow> ('ty, 'ty program) run" where
  "add_force_cost options i p =
     and_then (demand p (elem_at options i)) (\<lambda>oi.
     if getForceCost oi \<noteq> 0 then
       and_then (demand p (num_kinematic_constraints p i)) (\<lambda>c.
       and_then (demand p (elem_at (mode_lengths_fld p) i)) (\<lambda>len.
       for_loop 0 len (\<lambda>j q.
         and_then (demand q (force q i j)) (\<lambda>vs. Inr (AddCost (L2NormCost c vs) q))) p))
     else Inr p)"

text \<open>
  One iteration of the loop over the modes.  The state of the loop is the local
  \<open>counter\<close> and the object.  \<open>DRAKE_ASSERT\<close> is compiled in or out: \<open>asserts_armed\<close>
  says which.  \<open>dynamic_rows tree c\<close> stands for \<open>num_constraints()\<close> of the
  \<open>DirconDynamicConstraint\<close> made from \<open>tree\<close> and \<open>c\<close>, a class defined outside the
  files at hand.
\<close>

definition mode_body ::
  "bool \<Rightarrow> (RigidBodyTree \<Rightarrow> DirconKinematicDataSet \<Rightarrow> int) \<Rightarrow> RigidBodyTree \<Rightarrow> int list \<Rightarrow>
   real list \<Rightarrow> real list \<Rightarrow> 'ty DirconOptions list \<Rightarrow>
   int \<Rightarrow> int \<times> 'ty program \<Rightarrow> ('ty, int \<times> 'ty program) run" where
  "mode_body asserts_armed dynamic_rows tree num_time_samples minimum_timestep maximum_timestep
     options i = (\<lambda>(counter, p).
     let p = p\<lparr>mode_start_fld := mode_start_fld p @ [counter]\<rparr> in
     and_then (set_timestep_bounds minimum_timestep maximum_timestep i p) (\<lambda>p.
     and_then (demand p (elem_at (constraints_fld p) i)) (\<lambda>ci.
     let p = p\<lparr>num_kinematic_constraints_fld :=
                 num_kinematic_constraints_fld p @ [countConstraints ci]\<rparr> in
     and_then (init_decision_variables num_time_samples options i p) (\<lambda>p.
     if asserts_armed \<and> dynamic_rows tree ci \<noteq> num_states p then Inl (AssertionFailure, p)
     else
     and_then (add_dynamic_constraints i p) (\<lambda>p.
     and_then (add_kinematic_constraints options i p) (\<lambda>p.
     and_then (add_force_constraints i p) (\<lambda>p.
     and_then (add_force_cost options i p) (\<lambda>p.
     and_then (demand p (elem_at (mode_lengths_fld p) i)) (\<lambda>len.
     Inr (counter + len, p))))))))))"

definition HybridDircon ::
  "bool \<Rightarrow> (RigidBodyTree \<Rightarrow> DirconKinematicDataSet \<Rightarrow> int) \<Rightarrow> RigidBodyTree \<Rightarrow> int list \<Rightarrow>
   real list \<Rightarrow> real list \<Rightarrow> DirconKinematicDataSet list \<Rightarrow> 'ty DirconOptions list \<Rightarrow>
   ('ty, 'ty program) run" where
  "HybridDircon asserts_armed dynamic_rows tree num_time_samples minimum_timestep
     maximum_timestep constraints options =
     and_then (MultipleShooting (get_num_actuators tree)
                 (int32 (get_num_positions tree + get_num_velocities tree))
                 (int32 (sum_list num_time_samples)) (1 / 10 ^ 8) (10 ^ 8) tree) (\<lambda>p.
     let p = p\<lparr>num_modes_fld := int (length num_time_samples),
                mode_lengths_fld := num_time_samples\<rparr> in
     if asserts_armed \<and> int (length minimum_timestep) \<noteq> num_modes_fld p
       then Inl (AssertionFailure, p)
     else if asserts_armed \<and> int (length maximum_timestep) \<noteq> num_modes_fld p
       then Inl (AssertionFailure, p)
     else if asserts_armed \<and> int (length constraints) \<noteq> num_modes_fld p
       then Inl (AssertionFailure, p)
     else
     let p = p\<lparr>tree_fld := tree, constraints_fld := constraints\<rparr> in
     and_then (for_loop 0 (num_modes_fld p)
                 (mode_body asserts_armed dynamic_rows tree num_time_samples minimum_timestep
                    maximum_timestep options) (0, p))
       (\<lambda>(counter, p). Inr p))"

text \<open>
  Modelled from the spec: \<open>DirconDynamicConstraint\<close> is defined outside the files at hand;
  the specification gives its dimension as \<open>2\<cdot>n_v\<close> per interval.
\<close>

definition DirconDynamicConstraint_num_constraints ::
  "RigidBodyTree \<Rightarrow> DirconKinematicDataSet \<Rightarrow> int" where
  "DirconDynamicConstraint_num_constraints tree c = 2 * get_num_velocities tree"

section \<open>Running cost\<close>

definition DoAddRunningCost :: "'ty program \<Rightarrow> ('ty, 'ty program) run" where
  "DoAddRunningCost p =
     and_then (demand p (elem_at (h_vars p) 0)) (\<lambda>h0.
     let p = AddCost (RunningCost (0.5 * (1 / 2)) 0 [h0]) p in
     and_then (for_loop 1 (N p - 2) (\<lambda>i q.
         and_then (demand q (do {
             a \<leftarrow> elem_at (h_vars q) (i - 1);
             b \<leftarrow> elem_at (h_vars q) i;
             Some (RunningCost (1 / 2) i [a, b]) }))
           (\<lambda>c. Inr (AddCost c q))) p) (\<lambda>p.
     and_then (demand p (elem_at (h_vars p) (N p - 2))) (\<lambda>hl.
     Inr (AddCost (RunningCost (0.5 * (1 / 2)) (N p - 1) [hl]) p))))"

text \<open>
  The value of the costs at running-cost values \<open>g\<close> (by knot) and a valuation \<open>\<sigma>\<close> of
  the decision variables; a cost that is not a running cost counts as zero.
\<close>

definition running_cost_value :: "(int \<Rightarrow> real) \<Rightarrow> (var \<Rightarrow> real) \<Rightarrow> cost \<Rightarrow> real" where
  "running_cost_value g \<sigma> c =
     (case c of RunningCost a k hs \<Rightarrow> a * (g k * sum_list (map \<sigma> hs)) | L2NormCost n vs \<Rightarrow> 0)"

definition total_running_cost :: "(int \<Rightarrow> real) \<Rightarrow> (var \<Rightarrow> real) \<Rightarrow> 'ty program \<Rightarrow> real" where
  "total_running_cost g \<sigma> p = sum_list (map (running_cost_value g \<sigma>) (costs p))"

text \<open>
  The trapezoidal integral as the comment of \<open>DoAddRunningCost\<close> writes it:
  \<open>g\<^sub>0 h\<^sub>0 / 2 + (\<Sum>i = 1..N - 2. g\<^sub>i (h\<^bsub>i - 1\<^esub> + h\<^sub>i) / 2) + g\<^bsub>N - 1\<^esub> h\<^bsub>N - 2\<^esub> / 2\<close>.
\<close>

definition trapezoid :: "(int \<Rightarrow> real) \<Rightarrow> (var \<Rightarrow> real) \<Rightarrow> 'ty program \<Rightarrow> real" where
  "trapezoid g \<sigma> p =
     g 0 * \<sigma> (h_vars p ! 0) / 2
     + (\<Sum>i \<leftarrow> [1 .. N p - 2]. g i * (\<sigma> (h_vars p ! nat (i - 1)) + \<sigma> (h_vars p ! nat i)) / 2)
     + g (N p - 1) * \<sigma> (h_vars p ! nat (N p - 2)) / 2"


section \<open>Reconstructing trajectories\<close>

text \<open>
  The solver and the trajectory library are outside the repository and are parameters:
  \<open>sample_times\<close> is the vector \<open>GetSampleTimes()\<close>, \<open>GetSolution\<close> maps a block of variables to
  the matrix of their solved values, \<open>FirstOrderHold\<close> and \<open>Cubic\<close> are the constructors
  of \<open>PiecewisePolynomial\<close>, \<open>DiscardGradient\<close> strips derivative tracking.  \<open>t0\<close> and
  \<open>m0\<close> are what a freshly sized \<open>std::vector\<close> of numbers or of matrices holds.
\<close>

definition ReconstructInputTrajectory ::
  "'ty program \<Rightarrow> 't list \<Rightarrow> (vars \<Rightarrow> 'v) \<Rightarrow> ('t list \<Rightarrow> 'v list \<Rightarrow> 'pp) \<Rightarrow> 't \<Rightarrow> 'v \<Rightarrow>
   failure + 'pp" where
  "ReconstructInputTrajectory p sample_times GetSolution FirstOrderHold t0 m0 =
     (if N p < 0 then Inl BadSize
      else and_then
        (for_loop 0 (N p) (\<lambda>i (times_vec, inputs).
           require (do {
             t \<leftarrow> elem_at sample_times i;
             tv \<leftarrow> store times_vec i t;
             u \<leftarrow> input p i;
             uv \<leftarrow> store inputs i (GetSolution u);
             Some (tv, uv) }))
          (replicate (nat (N p)) t0, replicate (nat (N p)) m0))
        (\<lambda>(times_vec, inputs). Inr (FirstOrderHold times_vec inputs)))"

text \<open>
  Modelled from the spec: \<open>DirconKinematicDataSet\<close> is defined outside the files at hand.
  By the specification \<open>updateData(x, u, \<lambda>)\<close> recomputes and caches the derivative of
  the state under the constrained dynamics, and a later query reads the cache.  The
  constrained dynamics of a constraint set is the parameter \<open>xdot\<close>; the cache holds one
  derivative.
\<close>

definition updateData :: "('v \<Rightarrow> 'v \<Rightarrow> 'v \<Rightarrow> 'd) \<Rightarrow> 'v \<Rightarrow> 'v \<Rightarrow> 'v \<Rightarrow> 'd \<Rightarrow> 'd" where
  "updateData xdot x u l cache = xdot x u l"

definition getXDot :: "'d \<Rightarrow> 'd" where
  "getXDot cache = cache"

text \<open>
  The five vectors that \<open>ReconstructStateTrajectory\<close> fills, and the body of its inner
  loop for knot \<open>j\<close> of mode \<open>i\<close>.  \<open>caches\<close> holds the cache of the constraint set of each
  mode, and \<open>XDot i\<close> is the constrained dynamics of the set of mode \<open>i\<close>.
\<close>

record ('t, 'v) samples =
  times_vec :: "'t list"
  states :: "'v list"
  inputs :: "'v list"
  forces :: "'v list"
  derivatives :: "'v list"

definition reconstruct_knot ::
  "'ty program \<Rightarrow> 't list \<Rightarrow> (vars \<Rightarrow> 'v) \<Rightarrow> (int \<Rightarrow> 'v \<Rightarrow> 'v \<Rightarrow> 'v \<Rightarrow> 'd) \<Rightarrow> ('d \<Rightarrow> 'v) \<Rightarrow>
   int \<Rightarrow> int \<Rightarrow> ('t, 'v) samples \<times> 'd list \<Rightarrow> (('t, 'v) samples \<times> 'd list) option" where
  "reconstruct_knot p sample_times GetSolution XDot DiscardGradient i j = (\<lambda>(b, caches). do {
     ms \<leftarrow> elem_at (mode_start_fld p) i;
     let k = ms + j;
     t \<leftarrow> elem_at sample_times k;
     tv \<leftarrow> store (times_vec b) k t;
     x \<leftarrow> state p k;
     sv \<leftarrow> store (states b) k (GetSolution x);
     u \<leftarrow> input p k;
     uv \<leftarrow> store (inputs b) k (GetSolution u);
     l \<leftarrow> force p i j;
     fv \<leftarrow> store (forces b) k (GetSolution l);
     xk \<leftarrow> elem_at sv k;
     uk \<leftarrow> elem_at uv k;
     lk \<leftarrow> elem_at fv k;
     c \<leftarrow> elem_at caches i;
     caches' \<leftarrow> store caches i (updateData (XDot i) xk uk lk c);
     c' \<leftarrow> elem_at caches' i;
     dv \<leftarrow> store (derivatives b) k (DiscardGradient (getXDot c'));
     Some (\<lparr>times_vec = tv, states = sv, inputs = uv, forces = fv, derivatives = dv\<rparr>,
           caches') })"

definition ReconstructStateTrajectory ::
  "'ty program \<Rightarrow> 't list \<Rightarrow> (vars \<Rightarrow> 'v) \<Rightarrow> (int \<Rightarrow> 'v \<Rightarrow> 'v \<Rightarrow> 'v \<Rightarrow> 'd) \<Rightarrow> ('d \<Rightarrow> 'v) \<Rightarrow>
   ('t list \<Rightarrow> 'v list \<Rightarrow> 'v list \<Rightarrow> 'pp) \<Rightarrow> 't \<Rightarrow> 'v \<Rightarrow> 'd list \<Rightarrow> failure + ('pp \<times> 'd list)" where
  "ReconstructStateTrajectory p sample_times GetSolution XDot DiscardGradient Cubic t0 m0 caches =
     (if N p < 0 then Inl BadSize
      else and_then
        (for_loop 0 (num_modes_fld p) (\<lambda>i s.
           and_then (require (elem_at (mode_lengths_fld p) i)) (\<lambda>len.
           for_loop 0 len (\<lambda>j s.
             require (reconstruct_knot p sample_times GetSolution XDot DiscardGradient i j s)) s))
          (\<lparr>times_vec = replicate (nat (N p)) t0, states = replicate (nat (N p)) m0,
            inputs = replicate (nat (N p)) m0, forces = replicate (nat (N p)) m0,
            derivatives = replicate (nat (N p)) m0\<rparr>, caches))
        (\<lambda>(b, caches). Inr (Cubic (times_vec b) (states b) (derivatives b), caches)))"

section \<open>Seeding the force variables\<close>

text \<open>
  The arithmetic of \<open>double\<close> that \<open>SetInitialForceTrajectory\<close> uses: the conversion of an
  \<open>int\<close>, the sum, the product, and the constants \<open>0\<close> and \<open>0.5\<close>.  It is a parameter, and
  \<open>'d\<close> is the type of the values of a \<open>double\<close>.
\<close>

record 'd double_arithmetic =
  d_of_int :: "int \<Rightarrow> 'd"
  d_plus :: "'d \<Rightarrow> 'd \<Rightarrow> 'd"
  d_times :: "'d \<Rightarrow> 'd \<Rightarrow> 'd"
  d_zero :: 'd
  d_half :: 'd

text \<open>
  The initial guess of the program is a value for every decision variable;
  \<open>SetInitialGuess\<close> overwrites it on a block of variables.  \<open>seed_guess\<close> is the shape
  the three blocks of \<open>SetInitialForceTrajectory\<close> share: a vector \<open>v\<close>, freshly sized
  and not initialised, is filled with zeros when the trajectory is empty (\<open>None\<close>), and
  otherwise its segment \<open>i\<close> of \<open>num_kinematic_constraints_[mode]\<close> rows is assigned the
  value of the trajectory at \<open>time i\<close>, for \<open>i\<close> from \<open>0\<close> below \<open>n\<close>.  The contents of a vector
  that is not initialised are given by the parameter \<open>uninitialized\<close>.
\<close>

definition SetInitialGuess :: "vars \<Rightarrow> 'd list \<Rightarrow> (var \<Rightarrow> 'd) \<Rightarrow> (var \<Rightarrow> 'd)" where
  "SetInitialGuess vs xs guess = fold (\<lambda>(v, x) g. g(v := x)) (zip vs xs) guess"

definition seed_guess ::
  "'d double_arithmetic \<Rightarrow> 'ty program \<Rightarrow> int \<Rightarrow> ('d \<Rightarrow> 'd list) option \<Rightarrow> int \<Rightarrow> (int \<Rightarrow> 'd) \<Rightarrow>
   'd list \<Rightarrow> failure + 'd list" where
  "seed_guess ar p mode traj n time v =
     (case traj of
        None \<Rightarrow> Inr (replicate (length v) (d_zero ar))
      | Some val \<Rightarrow>
          for_loop 0 n (\<lambda>i g. require (do {
              c \<leftarrow> elem_at (num_kinematic_constraints_fld p) mode;
              assign_segment g (c * i) c (val (time i)) })) v)"

definition SetInitialForceTrajectory ::
  "'d double_arithmetic \<Rightarrow> 'ty program \<Rightarrow> bool \<Rightarrow> 'd \<Rightarrow> (nat \<Rightarrow> 'd) \<Rightarrow> int \<Rightarrow>
   ('d \<Rightarrow> 'd list) option \<Rightarrow> ('d \<Rightarrow> 'd list) option \<Rightarrow> ('d \<Rightarrow> 'd list) option \<Rightarrow>
   (var \<Rightarrow> 'd) \<Rightarrow> failure + (var \<Rightarrow> 'd)" where
  "SetInitialForceTrajectory ar p timesteps_are_decision_variables fixed_timestep uninitialized
     mode traj_init_l traj_init_lc traj_init_vc guess =
     (let start_time = d_zero ar in
      and_then (if timesteps_are_decision_variables
                then and_then (require (elem_at (h_vars p) 0)) (\<lambda>h0. Inr (guess h0))
                else Inr fixed_timestep) (\<lambda>h.
      and_then (require (elem_at (force_vars_fld p) mode)) (\<lambda>fv.
      and_then (seed_guess ar p mode traj_init_l (N p)
                  (\<lambda>i. d_plus ar start_time (d_times ar (d_of_int ar i) h))
                  (map uninitialized [0 ..< length fv])) (\<lambda>guess_force.
      let guess = SetInitialGuess fv guess_force guess in
      and_then (require (elem_at (collocation_force_vars_fld p) mode)) (\<lambda>cfv.
      and_then (seed_guess ar p mode traj_init_lc (N p - 1)
                  (\<lambda>i. d_plus ar start_time
                         (d_times ar (d_plus ar (d_of_int ar i) (d_half ar)) h))
                  (map uninitialized [0 ..< length cfv])) (\<lambda>guess_collocation_force.
      let guess = SetInitialGuess cfv guess_collocation_force guess in
      and_then (require (elem_at (collocation_slack_vars_fld p) mode)) (\<lambda>csv.
      and_then (seed_guess ar p mode traj_init_vc (N p - 1)
                  (\<lambda>i. d_plus ar start_time
                         (d_times ar (d_plus ar (d_of_int ar i) (d_half ar)) h))
                  (map uninitialized [0 ..< length csv])) (\<lambda>guess_collocation_slack.
      Inr (SetInitialGuess csv guess_collocation_slack guess)))))))))"


section \<open>Notions used in the statements and proofs\<close>

text \<open>
  The state a run ends in, whether it completed or stopped; \<open>failure_of\<close> is the
  failure of a stopped run.
\<close>

definition failure_of :: "(failure \<times> 'ty program) + 'a \<Rightarrow> failure option" where
  "failure_of r = (case r of Inl (f, p) \<Rightarrow> Some f | Inr a \<Rightarrow> None)"

definition is_timestep_constraint :: "'ty binding \<Rightarrow> bool" where
  "is_timestep_constraint b = (case b of Binding e vs \<Rightarrow> False | _ \<Rightarrow> True)"

definition is_kinematic_constraint :: "'ty binding \<Rightarrow> bool" where
  "is_kinematic_constraint b =
     (case b of Binding (DirconKinematicConstraint i rel ty) vs \<Rightarrow> True | _ \<Rightarrow> False)"

definition is_force_constraint :: "'ty binding \<Rightarrow> bool" where
  "is_force_constraint b = (case b of Binding (ForceConstraint i j k) vs \<Rightarrow> True | _ \<Rightarrow> False)"

definition is_dynamic :: "'ty binding \<Rightarrow> bool" where
  "is_dynamic b = (case b of Binding (DirconDynamicConstraint i) vs \<Rightarrow> True | _ \<Rightarrow> False)"

text \<open>
  \<open>extends P p q\<close>: \<open>q\<close> is \<open>p\<close> with constraints satisfying \<open>P\<close> and costs added, and
  nothing else changed.  \<open>post r E R\<close>: a stopped run \<open>r\<close> satisfies \<open>E\<close>, a completed one
  \<open>R\<close>.  \<open>unasserted r\<close>: the run has not stopped at an assertion; it completed or
  stopped elsewhere.
\<close>

definition ends :: "('s \<Rightarrow> 'ty program) \<Rightarrow> (failure \<times> 'ty program) + 's \<Rightarrow> 'ty program" where
  "ends \<pi> r = (case r of Inl (f, p) \<Rightarrow> p | Inr s \<Rightarrow> \<pi> s)"

definition extends :: "('ty binding \<Rightarrow> bool) \<Rightarrow> 'ty program \<Rightarrow> 'ty program \<Rightarrow> bool" where
  "extends P p q \<longleftrightarrow>
     (\<exists>bs ks. q = p\<lparr>added_constraints := added_constraints p @ bs, costs := costs p @ ks\<rparr>
        \<and> list_all P bs)"

definition post :: "'e + 'a \<Rightarrow> ('e \<Rightarrow> bool) \<Rightarrow> ('a \<Rightarrow> bool) \<Rightarrow> bool" where
  "post r E R = (case r of Inl e \<Rightarrow> E e | Inr a \<Rightarrow> R a)"

definition unasserted :: "(failure \<times> 'ty program) + 'a \<Rightarrow> bool" where
  "unasserted r \<longleftrightarrow> failure_of r \<noteq> Some AssertionFailure"

text \<open>
  The check of the dimension of the dynamic constraint, mode by mode; \<open>ns\<close> is the
  number of states of the object.  \<open>checked k\<close>: the constraint sets of the first \<open>k\<close>
  modes give a \<open>DirconDynamicConstraint\<close> with \<open>ns\<close> rows.  \<open>at_mode k p\<close>: the object
  \<open>p\<close> has the variables of the first \<open>k\<close> modes, all of them checked.  \<open>stopped f p\<close>:
  what holds of an object \<open>p\<close> at which the construction has stopped with the failure
  \<open>f\<close>.
\<close>

definition checked ::
  "(RigidBodyTree \<Rightarrow> DirconKinematicDataSet \<Rightarrow> int) \<Rightarrow> RigidBodyTree \<Rightarrow>
   DirconKinematicDataSet list \<Rightarrow> int \<Rightarrow> nat \<Rightarrow> bool" where
  "checked dynamic_rows tree cs ns k \<longleftrightarrow>
     (\<forall>i < k. i < length cs \<and> dynamic_rows tree (cs ! i) = ns)"

definition at_mode ::
  "(RigidBodyTree \<Rightarrow> DirconKinematicDataSet \<Rightarrow> int) \<Rightarrow> RigidBodyTree \<Rightarrow>
   DirconKinematicDataSet list \<Rightarrow> int \<Rightarrow> nat \<Rightarrow> 'ty program \<Rightarrow> bool" where
  "at_mode dynamic_rows tree cs ns k p \<longleftrightarrow>
     constraints_fld p = cs \<and> tree_fld p = tree \<and> num_states p = ns
     \<and> length (offset_vars_fld p) = k
     \<and> checked dynamic_rows tree cs ns k"

definition stopped ::
  "(RigidBodyTree \<Rightarrow> DirconKinematicDataSet \<Rightarrow> int) \<Rightarrow> RigidBodyTree \<Rightarrow>
   DirconKinematicDataSet list \<Rightarrow> int \<Rightarrow> failure \<Rightarrow> 'ty program \<Rightarrow> bool" where
  "stopped dynamic_rows tree cs ns f p \<longleftrightarrow>
     num_states p = ns
     \<and> (if f = AssertionFailure
        then offset_vars_fld p = []
           \<or> (\<exists>k. length (offset_vars_fld p) = Suc k \<and> checked dynamic_rows tree cs ns k
                  \<and> k < length cs \<and> dynamic_rows tree (cs ! k) \<noteq> ns)
        else checked dynamic_rows tree cs ns (length (offset_vars_fld p)))"

text \<open>
  \<open>sampled zero p mode traj n time g\<close>: the vector \<open>g\<close> is all \<open>zero\<close> when the trajectory is
  empty, and otherwise its segment \<open>i\<close> holds the value of the trajectory at \<open>time i\<close>,
  for every \<open>i\<close> from \<open>0\<close> below \<open>n\<close>.
\<close>

definition sampled ::
  "'d \<Rightarrow> 'ty program \<Rightarrow> int \<Rightarrow> ('d \<Rightarrow> 'd list) option \<Rightarrow> int \<Rightarrow> (int \<Rightarrow> 'd) \<Rightarrow> 'd list \<Rightarrow> bool" where
  "sampled zero p mode traj n time g =
     (case traj of
        None \<Rightarrow> g = replicate (length g) zero
      | Some val \<Rightarrow>
          (\<forall>i. 0 \<le> i \<and> i < n \<longrightarrow>
             (\<exists>c. elem_at (num_kinematic_constraints_fld p) mode = Some c
                  \<and> segment g (c * i) c = Some (val (time i)))))"

text \<open>
  \<open>knot_derivative\<close>: the derivative that the constrained dynamics of mode \<open>i\<close> gives at
  the solved state, input and force of knot \<open>j\<close> of that mode, with derivative tracking
  discarded.  \<open>reconstructible\<close>: the mode table of the object is complete (mode starts
  are the running sums of the mode lengths, which add up to \<open>N\<close>), there is a sample time
  for every knot and a cache for every mode, and every knot has a state, an input and a
  force block.  \<open>filled\<close>: the first \<open>k\<close> entries of the vectors being filled are final.
\<close>

definition knot_derivative ::
  "'ty program \<Rightarrow> (vars \<Rightarrow> 'v) \<Rightarrow> (int \<Rightarrow> 'v \<Rightarrow> 'v \<Rightarrow> 'v \<Rightarrow> 'd) \<Rightarrow> ('d \<Rightarrow> 'v) \<Rightarrow> int \<Rightarrow> int \<Rightarrow> 'v" where
  "knot_derivative p GetSolution XDot DiscardGradient i j =
     (let k = the (elem_at (mode_start_fld p) i) + j
      in DiscardGradient (XDot i (GetSolution (the (state p k))) (GetSolution (the (input p k)))
           (GetSolution (the (force p i j)))))"

definition reconstructible :: "'ty program \<Rightarrow> 't list \<Rightarrow> 'd list \<Rightarrow> bool" where
  "reconstructible p sample_times caches \<longleftrightarrow>
     num_modes_fld p = int (length (mode_lengths_fld p))
     \<and> (\<forall>len \<in> set (mode_lengths_fld p). 0 \<le> len)
     \<and> mode_start_fld p = map (\<lambda>i. sum_list (take i (mode_lengths_fld p)))
                             [0 ..< length (mode_lengths_fld p)]
     \<and> N p = sum_list (mode_lengths_fld p)
     \<and> int (length sample_times) = N p
     \<and> length caches = length (mode_lengths_fld p)
     \<and> (\<forall>k. 0 \<le> k \<and> k < N p \<longrightarrow> state p k \<noteq> None \<and> input p k \<noteq> None)
     \<and> (\<forall>i < length (mode_lengths_fld p). \<forall>j. 0 \<le> j \<and> j < mode_lengths_fld p ! i \<longrightarrow>
           force p (int i) j \<noteq> None)"

definition filled ::
  "nat \<Rightarrow> nat \<Rightarrow> 't list \<Rightarrow> (nat \<Rightarrow> 'v) \<Rightarrow> nat \<Rightarrow> 'v list \<Rightarrow> ('t, 'v) samples \<times> 'd list \<Rightarrow> bool" where
  "filled n m sample_times S k ds s \<longleftrightarrow>
     length (times_vec (fst s)) = n \<and> length (states (fst s)) = n
     \<and> length (inputs (fst s)) = n \<and> length (forces (fst s)) = n
     \<and> length (derivatives (fst s)) = n \<and> length (snd s) = m
     \<and> take k (times_vec (fst s)) = take k sample_times
     \<and> take k (states (fst s)) = map S [0 ..< k]
     \<and> take k (derivatives (fst s)) = ds"

section \<open>A transcription with two modes\<close>

text \<open>
  A tree with one position, one velocity and two actuators; two modes of three knots
  each; in both modes a constraint set of three rows made of two constraint objects, of
  lengths one and two, each with one force constraint.  \<open>ex_stopped\<close> is the object at
  which the construction stops: in the first mode, at the first call of
  \<open>state_vars_by_mode\<close>.
\<close>

definition ex_tree :: RigidBodyTree where
  "ex_tree = \<lparr>get_num_positions = 1, get_num_velocities = 1, get_num_actuators = 2\<rparr>"

definition ex_set :: DirconKinematicDataSet where
  "ex_set = \<lparr>countConstraints = 3, constraint_objects =
     [\<lparr>getLength = 1, numForceConstraints = 1\<rparr>, \<lparr>getLength = 2, numForceConstraints = 1\<rparr>]\<rparr>"

definition ex_options :: "nat DirconOptions" where
  "ex_options = \<lparr>getNumRelative = 1, getConstraintsRelative = [True, False, False],
     getStartType = 1, getEndType = 2, getForceCost = 0\<rparr>"

definition ex_run :: "(nat, nat program) run" where
  "ex_run = HybridDircon True DirconDynamicConstraint_num_constraints ex_tree [3, 3]
     [1, 2] [3, 4] [ex_set, ex_set] [ex_options, ex_options]"

definition ex_stopped :: "nat program" where
  "ex_stopped =
     \<lparr>num_vars = 52,
      added_constraints =
        [BoundingBoxConstraint (1 / 10 ^ 8) (10 ^ 8) [0, 1, 2, 3, 4],
         BoundingBoxConstraint 1 3 [0], BoundingBoxConstraint 1 3 [1],
         BoundingBoxConstraint 1 3 [2],
         LinearConstraintEq [0] [1], LinearConstraintEq [1] [2]],
      costs = [], num_inputs = 2, num_states = 2, N = 6,
      h_vars = [0, 1, 2, 3, 4],
      x_vars = [5, 6, 7, 8, 9, 10, 11, 12, 13, 14, 15, 16],
      u_vars = [17, 18, 19, 20, 21, 22, 23, 24, 25, 26, 27, 28],
      tree_fld = ex_tree,
      constraints_fld = [ex_set, ex_set],
      num_modes_fld = 2, mode_lengths_fld = [3, 3],
      mode_start_fld = [0], num_kinematic_constraints_fld = [3],
      force_vars_fld = [[29, 30, 31, 32, 33, 34, 35, 36, 37]],
      collocation_force_vars_fld = [[38, 39, 40, 41, 42, 43]],
      collocation_slack_vars_fld = [[44, 45, 46, 47, 48, 49]],
      offset_vars_fld = [[50]], v_post_impact_vars_fld = [51]\<rparr>"

text \<open>
  \<open>ex_program\<close> is \<open>ex_stopped\<close> with the second mode entered in the mode table and the
  variables of the second mode allocated as the first mode's are: an object of two
  modes for the functions that work on a constructed object.  The constructor does not
  get as far.
\<close>

definition ex_program :: "nat program" where
  "ex_program = ex_stopped
     \<lparr>num_vars := 75, mode_start_fld := [0, 3], num_kinematic_constraints_fld := [3, 3],
      force_vars_fld :=
        [[29, 30, 31, 32, 33, 34, 35, 36, 37], [52, 53, 54, 55, 56, 57, 58, 59, 60]],
      collocation_force_vars_fld := [[38, 39, 40, 41, 42, 43], [61, 62, 63, 64, 65, 66]],
      collocation_slack_vars_fld := [[44, 45, 46, 47, 48, 49], [67, 68, 69, 70, 71, 72]],
      offset_vars_fld := [[50], [73]], v_post_impact_vars_fld := [74]\<rparr>"

text \<open>
  The same transcription with each minimum timestep above its maximum, and with a
  vector of minimum timesteps that is one entry short, the latter with assertions
  compiled in and compiled out.
\<close>

definition ex_run_unordered :: "(nat, nat program) run" where
  "ex_run_unordered = HybridDircon True DirconDynamicConstraint_num_constraints ex_tree [3, 3]
     [3, 4] [1, 2] [ex_set, ex_set] [ex_options, ex_options]"

definition ex_run_short :: "(nat, nat program) run" where
  "ex_run_short = HybridDircon True DirconDynamicConstraint_num_constraints ex_tree [3, 3]
     [1] [3, 4] [ex_set, ex_set] [ex_options, ex_options]"

definition ex_run_short_disarmed :: "(nat, nat program) run" where
  "ex_run_short_disarmed =
     HybridDircon False DirconDynamicConstraint_num_constraints ex_tree [3, 3]
       [1] [3, 4] [ex_set, ex_set] [ex_options, ex_options]"

text \<open>The object the base class leaves for a tree like \<open>ex_tree\<close> and six knots.\<close>

definition ex_base :: "nat program" where
  "ex_base =
     \<lparr>num_vars = 29,
      added_constraints = [BoundingBoxConstraint (1 / 10 ^ 8) (10 ^ 8) [0, 1, 2, 3, 4]],
      costs = [], num_inputs = 2, num_states = 2, N = 6,
      h_vars = [0, 1, 2, 3, 4],
      x_vars = [5, 6, 7, 8, 9, 10, 11, 12, 13, 14, 15, 16],
      u_vars = [17, 18, 19, 20, 21, 22, 23, 24, 25, 26, 27, 28],
      tree_fld = ex_tree, constraints_fld = [],
      num_modes_fld = 0, mode_lengths_fld = [], mode_start_fld = [],
      num_kinematic_constraints_fld = [],
      force_vars_fld = [], collocation_force_vars_fld = [],
      collocation_slack_vars_fld = [], offset_vars_fld = [],
      v_post_impact_vars_fld = []\<rparr>"

text \<open>A transcription of three knots, as the base class leaves it.\<close>

definition ex_three_knots :: "nat program" where
  "ex_three_knots =
     \<lparr>num_vars = 14,
      added_constraints = [BoundingBoxConstraint (1 / 10 ^ 8) (10 ^ 8) [0, 1]],
      costs = [], num_inputs = 2, num_states = 2, N = 3,
      h_vars = [0, 1],
      x_vars = [2, 3, 4, 5, 6, 7],
      u_vars = [8, 9, 10, 11, 12, 13],
      tree_fld = ex_tree, constraints_fld = [],
      num_modes_fld = 0, mode_lengths_fld = [], mode_start_fld = [],
      num_kinematic_constraints_fld = [],
      force_vars_fld = [], collocation_force_vars_fld = [],
      collocation_slack_vars_fld = [], offset_vars_fld = [],
      v_post_impact_vars_fld = []\<rparr>"

text \<open>
  The construction of a transcription with that tree and a single mode of three knots,
  and the object at which it stops: in the loop that bounds the timesteps.
\<close>

definition ex_run_single :: "(nat, nat program) run" where
  "ex_run_single = HybridDircon True DirconDynamicConstraint_num_constraints ex_tree [3]
     [1] [3] [ex_set] [ex_options]"

definition ex_stopped_single :: "nat program" where
  "ex_stopped_single = ex_three_knots
     \<lparr>added_constraints :=
        [BoundingBoxConstraint (1 / 10 ^ 8) (10 ^ 8) [0, 1],
         BoundingBoxConstraint 1 3 [0], BoundingBoxConstraint 1 3 [1]],
      constraints_fld := [ex_set],
      num_modes_fld := 1, mode_lengths_fld := [3], mode_start_fld := [0]\<rparr>"

text \<open>
  A tree with two positions and one velocity, and the construction of the transcription
  with two modes for it, with assertions compiled in and compiled out.
\<close>

definition ex_tree3 :: RigidBodyTree where
  "ex_tree3 = \<lparr>get_num_positions = 2, get_num_velocities = 1, get_num_actuators = 2\<rparr>"

definition ex_run3 :: "bool \<Rightarrow> (nat, nat program) run" where
  "ex_run3 asserts_armed =
     HybridDircon asserts_armed DirconDynamicConstraint_num_constraints ex_tree3 [3, 3]
       [1, 2] [3, 4] [ex_set, ex_set] [ex_options, ex_options]"

text \<open>
  An object with one mode of three knots and a constraint set of two rows, for seeding,
  and the arithmetic of the real numbers.
\<close>

definition ex_single :: "nat program" where
  "ex_single = ex_three_knots
     \<lparr>num_vars := 28, num_modes_fld := 1, mode_lengths_fld := [3], mode_start_fld := [0],
      num_kinematic_constraints_fld := [2],
      force_vars_fld := [[14, 15, 16, 17, 18, 19]],
      collocation_force_vars_fld := [[20, 21, 22, 23]],
      collocation_slack_vars_fld := [[24, 25, 26, 27]]\<rparr>"

definition real_arithmetic :: "real double_arithmetic" where
  "real_arithmetic =
     \<lparr>d_of_int = real_of_int, d_plus = (+), d_times = (*), d_zero = 0, d_half = 1 / 2\<rparr>"


section \<open>Runs, loops and sections of the constructor\<close>

lemma int32_id: "0 \<le> x \<Longrightarrow> x < 2 ^ 31 \<Longrightarrow> int32 x = x"
  by (simp add: int32_def)

lemma for_loop_rule:
  assumes "I j s"
    and "\<And>k s s'. j \<le> k \<Longrightarrow> k < n \<Longrightarrow> I k s \<Longrightarrow> body k s = Inr s' \<Longrightarrow> I (k + 1) s'"
    and "\<And>k s e. j \<le> k \<Longrightarrow> k < n \<Longrightarrow> I k s \<Longrightarrow> body k s = Inl e \<Longrightarrow> E e"
  shows "case for_loop j n body s of Inl e \<Rightarrow> E e | Inr s' \<Rightarrow> I (if j < n then n else j) s'"
  using assms
proof (induction j n body s rule: for_loop.induct)
  case (1 j n body s)
  show ?case
  proof (cases "j < n")
    case False
    with "1.prems"(1) show ?thesis
      by (subst for_loop.simps) simp
  next
    case True
    show ?thesis
    proof (cases "body j s")
      case (Inl e)
      with True "1.prems" have "E e" by blast
      with True Inl show ?thesis
        by (subst for_loop.simps) (simp add: and_then_def)
    next
      case (Inr s')
      with True "1.prems" have step: "I (j + 1) s'" by blast
      have "case for_loop (j + 1) n body s' of Inl e \<Rightarrow> E e
            | Inr t \<Rightarrow> I (if j + 1 < n then n else j + 1) t"
      proof (rule "1.IH" [OF True step])
        fix k s s' assume "j + 1 \<le> k" "k < n" "I k s" "body k s = Inr s'"
        then show "I (k + 1) s'" using "1.prems"(2) [of k s s'] by simp
      next
        fix k s e assume "j + 1 \<le> k" "k < n" "I k s" "body k s = Inl e"
        then show "E e" using "1.prems"(3) [of k s e] by simp
      qed
      moreover have "(if j + 1 < n then n else j + 1) = n"
        using True by simp
      ultimately have "case for_loop (j + 1) n body s' of Inl e \<Rightarrow> E e | Inr t \<Rightarrow> I n t"
        by (simp only:)
      then show ?thesis using True Inr
        by (subst for_loop.simps) (simp add: and_then_def)
    qed
  qed
qed

lemma for_loop_preserves:
  assumes "I s"
    and "\<And>k s s'. I s \<Longrightarrow> body k s = Inr s' \<Longrightarrow> I s'"
    and "\<And>k s e. I s \<Longrightarrow> body k s = Inl e \<Longrightarrow> E e"
  shows "case for_loop j n body s of Inl e \<Rightarrow> E e | Inr s' \<Rightarrow> I s'"
  using for_loop_rule [where I = "\<lambda>k. I" and E = E and body = body and j = j and n = n and s = s]
    assms by blast

lemma extends_refl: "extends P p p"
  by (auto simp: extends_def intro!: exI [of _ "[]"])

lemma extends_trans:
  assumes "extends P p q" and "extends P q r"
  shows "extends P p r"
proof -
  from assms(1) obtain bs ks where
    q: "q = p\<lparr>added_constraints := added_constraints p @ bs, costs := costs p @ ks\<rparr>"
    and bs: "list_all P bs"
    unfolding extends_def by blast
  from assms(2) obtain bs' ks' where
    r: "r = q\<lparr>added_constraints := added_constraints q @ bs', costs := costs q @ ks'\<rparr>"
    and bs': "list_all P bs'"
    unfolding extends_def by blast
  have "r = p\<lparr>added_constraints := added_constraints p @ (bs @ bs'),
               costs := costs p @ (ks @ ks')\<rparr>"
    by (simp add: q r)
  moreover have "list_all P (bs @ bs')"
    using bs bs' by simp
  ultimately show ?thesis
    unfolding extends_def by blast
qed

lemma extends_AddConstraint: "P b \<Longrightarrow> extends P p (AddConstraint b p)"
  unfolding extends_def AddConstraint_def
  by (rule exI [of _ "[b]"], rule exI [of _ "[]"]) simp

lemma extends_AddCost: "extends P p (AddCost c p)"
  unfolding extends_def AddCost_def
  by (rule exI [of _ "[]"], rule exI [of _ "[c]"]) simp

lemma ends_simps [simp]: "ends \<pi> (Inl (f, p)) = p" "ends \<pi> (Inr s) = \<pi> s"
  by (simp_all add: ends_def)

lemma extends_for_loop:
  assumes "\<And>k s. extends P (\<pi> s) (ends \<pi> (body k s))"
  shows "extends P (\<pi> s) (ends \<pi> (for_loop j n body s))"
proof -
  have "case for_loop j n body s of Inl e \<Rightarrow> extends P (\<pi> s) (snd e)
        | Inr s' \<Rightarrow> extends P (\<pi> s) (\<pi> s')"
  proof (rule for_loop_preserves [where I = "\<lambda>t. extends P (\<pi> s) (\<pi> t)"])
    show "extends P (\<pi> s) (\<pi> s)" by (rule extends_refl)
  next
    fix k t t' assume "extends P (\<pi> s) (\<pi> t)" "body k t = Inr t'"
    with assms [of t k] show "extends P (\<pi> s) (\<pi> t')"
      by (auto intro: extends_trans)
  next
    fix k t e assume "extends P (\<pi> s) (\<pi> t)" "body k t = Inl e"
    with assms [of t k] show "extends P (\<pi> s) (snd e)"
      by (cases e) (auto intro: extends_trans)
  qed
  then show ?thesis
    by (auto simp: ends_def split: sum.splits prod.splits)
qed

lemma extends_and_then:
  assumes "extends P p (ends \<pi> m)"
    and "\<And>a. m = Inr a \<Longrightarrow> extends P (\<pi> a) (ends \<rho> (f a))"
  shows "extends P p (ends \<rho> (and_then m f))"
proof (cases m)
  case (Inl e)
  with assms(1) show ?thesis by (cases e) (simp add: and_then_def)
next
  case (Inr a)
  with assms show ?thesis
    by (auto simp: and_then_def intro: extends_trans)
qed

lemma extends_demand:
  assumes "\<And>a. x = Some a \<Longrightarrow> extends P p (ends \<rho> (f a))"
  shows "extends P p (ends \<rho> (and_then (demand p x) f))"
  using assms by (cases x) (simp_all add: demand_def and_then_def extends_refl)

lemma extends_mono:
  assumes "extends P p q" and "\<And>b. P b \<Longrightarrow> Q b"
  shows "extends Q p q"
  using assms unfolding extends_def list_all_iff by blast

lemma set_timestep_bounds_extends:
  "extends is_timestep_constraint p (ends (\<lambda>p. p) (set_timestep_bounds mins maxs i p))"
  unfolding set_timestep_bounds_def
  apply (rule extends_demand)
  apply (rule extends_and_then [where \<pi> = "\<lambda>p. p"])
   apply (rule extends_for_loop)
   apply (rule extends_demand)
   apply (auto simp: bind_eq_Some_conv is_timestep_constraint_def
      intro!: extends_AddConstraint)[1]
  apply (rule extends_for_loop)
  apply (rule extends_demand)
  apply (auto simp: bind_eq_Some_conv is_timestep_constraint_def
      intro!: extends_AddConstraint)[1]
  done

lemma add_dynamic_constraints_extends:
  "extends (\<lambda>b. \<exists>vs. b = Binding (DirconDynamicConstraint i) vs) p
     (ends (\<lambda>p. p) (add_dynamic_constraints i p))"
  unfolding add_dynamic_constraints_def
  apply (rule extends_demand)
  apply (rule extends_for_loop)
  apply (rule extends_demand)
  apply (auto intro!: extends_AddConstraint)
  done

lemma add_kinematic_constraints_extends:
  "extends (\<lambda>b. \<not> is_dynamic b) p (ends (\<lambda>p. p) (add_kinematic_constraints options i p))"
  unfolding add_kinematic_constraints_def Let_def
  apply (rule extends_demand)
  apply (rule extends_demand)
  apply (rule extends_and_then [where \<pi> = "\<lambda>p. p"])
   apply (rule extends_for_loop)
   apply (rule extends_demand)
   apply (auto simp: is_dynamic_def intro!: extends_AddConstraint)[1]
  apply (rule extends_demand)
  apply (rule extends_trans [OF extends_AddConstraint])
   prefer 2
   apply (rule extends_demand)
   apply (auto simp: is_dynamic_def intro!: extends_AddConstraint)
  done

lemma add_force_constraints_extends:
  "extends (\<lambda>b. \<not> is_dynamic b) p (ends (\<lambda>p. p) (add_force_constraints i p))"
  unfolding add_force_constraints_def Let_def
  apply (rule extends_demand)
  apply (rule extends_for_loop)
  apply (rule extends_demand)
  apply (rule extends_demand)
  apply (rule extends_and_then [where \<pi> = snd])
   apply (rule extends_for_loop [where \<pi> = snd and s = "(a, b)" for a b, simplified])
   apply (simp split: prod.splits)
   apply (intro allI impI)
   apply (rule extends_demand)
   apply (rule extends_and_then [where \<pi> = "\<lambda>p. p"])
    apply (rule extends_for_loop)
    apply (rule extends_demand)
    apply (auto simp: is_dynamic_def intro!: extends_AddConstraint)[1]
   apply (simp add: extends_refl)
  apply (auto simp: extends_refl)
  done

lemma add_force_cost_extends:
  "extends (\<lambda>b. \<not> is_dynamic b) p (ends (\<lambda>p. p) (add_force_cost options i p))"
  unfolding add_force_cost_def
  apply (rule extends_demand)
  apply (simp add: extends_refl)
  apply (intro impI)
  apply (rule extends_demand)
  apply (rule extends_demand)
  apply (rule extends_for_loop)
  apply (rule extends_demand)
  apply (auto intro!: extends_AddCost)
  done

lemma post_and_then:
  assumes "post m E Q" and "\<And>a. Q a \<Longrightarrow> post (f a) E R"
  shows "post (and_then m f) E R"
  using assms by (cases m) (simp_all add: post_def and_then_def)

lemma post_demand:
  assumes "E (OutOfRange, p)" and "\<And>a. x = Some a \<Longrightarrow> R a"
  shows "post (demand p x) E R"
  using assms by (cases x) (simp_all add: post_def demand_def)

lemma post_extends:
  assumes "extends P p (ends (\<lambda>p. p) r)"
  shows "post r (\<lambda>e. extends P p (snd e)) (extends P p)"
  using assms by (cases r) (auto simp: post_def)

lemma post_weaken:
  assumes "post r E R" and "\<And>e. E e \<Longrightarrow> E' e" and "\<And>a. R a \<Longrightarrow> R' a"
  shows "post r E' R'"
  using assms by (cases r) (simp_all add: post_def)

lemma post_for_loop:
  assumes "I j s"
    and "\<And>k s. j \<le> k \<Longrightarrow> k < n \<Longrightarrow> I k s \<Longrightarrow> post (body k s) E (I (k + 1))"
  shows "post (for_loop j n body s) E (I (if j < n then n else j))"
  unfolding post_def
proof (rule for_loop_rule [where I = I and E = E, OF assms(1)])
  fix k s s' assume "j \<le> k" "k < n" "I k s" "body k s = Inr s'"
  with assms(2) [of k s] show "I (k + 1) s'" by (simp add: post_def)
next
  fix k s e assume "j \<le> k" "k < n" "I k s" "body k s = Inl e"
  with assms(2) [of k s] show "E e" by (simp add: post_def)
qed

lemma extends_fields:
  assumes "extends P p q"
  shows "num_vars q = num_vars p" "num_inputs q = num_inputs p" "num_states q = num_states p"
    "N q = N p" "h_vars q = h_vars p" "x_vars q = x_vars p" "u_vars q = u_vars p"
    "tree_fld q = tree_fld p" "constraints_fld q = constraints_fld p"
    "num_modes_fld q = num_modes_fld p" "mode_lengths_fld q = mode_lengths_fld p"
    "mode_start_fld q = mode_start_fld p"
    "num_kinematic_constraints_fld q = num_kinematic_constraints_fld p"
    "force_vars_fld q = force_vars_fld p"
    "collocation_force_vars_fld q = collocation_force_vars_fld p"
    "collocation_slack_vars_fld q = collocation_slack_vars_fld p"
    "offset_vars_fld q = offset_vars_fld p"
    "v_post_impact_vars_fld q = v_post_impact_vars_fld p"
  using assms by (auto simp: extends_def)

lemma extends_added:
  assumes "extends P p q"
  shows "\<exists>bs. added_constraints q = added_constraints p @ bs \<and> list_all P bs"
  using assms by (auto simp: extends_def)

section \<open>The constructor for a tree with states\<close>

text \<open>
  When the transcription has a state, no call of \<open>state_vars_by_mode\<close> returns: the
  blocks do not fit into the vector without rows.  So no dynamic and no kinematic
  constraint is ever added, the section that adds the kinematic constraints never
  completes, and the construction of a transcription with at least one mode stops, with
  no constraint added but those on the timesteps.
\<close>

lemma demand_simps:
  "demand p (Some a) = Inr a" "demand p None = Inl (OutOfRange, p)"
  by (simp_all add: demand_def)

lemma and_then_simps:
  "and_then (Inr a) f = f a" "and_then (Inl e) f = Inl e"
  by (simp_all add: and_then_def)

lemma state_vars_by_mode_stops:
  assumes "0 < num_states p"
  shows "state_vars_by_mode p mode time_index = None"
  using assms
  by (auto simp: state_vars_by_mode_def comma_initializer_def segment_def
      split: bind_splits if_splits)

lemma dynamic_constraint_vars_stops:
  "0 < num_states p \<Longrightarrow> dynamic_constraint_vars p i j = None"
  by (simp add: dynamic_constraint_vars_def state_vars_by_mode_stops Let_def
      split: bind_splits)

lemma kinematic_constraint_vars_stops:
  "0 < num_states p \<Longrightarrow> kinematic_constraint_vars p i j u = None"
  by (simp add: kinematic_constraint_vars_def state_vars_by_mode_stops)

lemma for_loop_stops:
  assumes "\<And>k. body k s = Inl (f, \<pi> s)"
  shows "for_loop j n body s = (if j < n then Inl (f, \<pi> s) else Inr s)"
  by (subst for_loop.simps) (simp add: assms and_then_def)

lemma add_dynamic_constraints_stops:
  assumes "0 < num_states p"
  shows "add_dynamic_constraints i p = Inl (OutOfRange, p) \<or> add_dynamic_constraints i p = Inr p"
proof (cases "elem_at (mode_lengths_fld p) i")
  case None
  then show ?thesis by (simp add: add_dynamic_constraints_def demand_def and_then_def)
next
  case (Some len)
  have "for_loop 0 (len - 1) (\<lambda>j q.
       and_then (demand q (dynamic_constraint_vars q i j))
         (\<lambda>vs. Inr (AddConstraint (Binding (DirconDynamicConstraint i) vs) q))) p
      = (if 0 < len - 1 then Inl (OutOfRange, p) else Inr p)"
    by (rule for_loop_stops [where \<pi> = "\<lambda>p. p"])
       (simp add: dynamic_constraint_vars_stops [OF assms] demand_def and_then_def)
  with Some show ?thesis by (simp add: add_dynamic_constraints_def demand_def and_then_def)
qed

lemma add_kinematic_constraints_stops:
  assumes "0 < num_states p"
  shows "add_kinematic_constraints options i p = Inl (OutOfRange, p)"
proof (cases "elem_at options i")
  case None
  then show ?thesis by (simp add: add_kinematic_constraints_def demand_def and_then_def)
next
  case oi: (Some oi)
  show ?thesis
  proof (cases "elem_at (mode_lengths_fld p) i")
    case None
    with oi show ?thesis by (simp add: add_kinematic_constraints_def demand_def and_then_def)
  next
    case (Some len)
    have loop: "for_loop 1 (len - 1) (\<lambda>j q.
         and_then (demand q (do {
             ms \<leftarrow> elem_at (mode_start_fld q) i;
             let time_index = ms + j;
             kinematic_constraint_vars q i j (time_index * num_inputs q) }))
           (\<lambda>vs. Inr (AddConstraint
              (Binding (DirconKinematicConstraint i (getConstraintsRelative oi) None) vs) q))) p
        = (if 1 < len - 1 then Inl (OutOfRange, p) else Inr p)"
      by (rule for_loop_stops [where \<pi> = "\<lambda>p. p"])
         (simp add: kinematic_constraint_vars_stops [OF assms] demand_def and_then_def Let_def
            split: bind_splits)
    have start: "(do { ms \<leftarrow> elem_at (mode_start_fld p) i;
                      kinematic_constraint_vars p i 0 ms }) = None"
      by (simp add: kinematic_constraint_vars_stops [OF assms] split: bind_splits)
    show ?thesis
      unfolding add_kinematic_constraints_def Let_def
      apply (simp only: oi Some demand_simps and_then_simps loop [unfolded Let_def])
      apply (simp add: start demand_simps and_then_simps)
      done
  qed
qed


lemma extends_timestep:
  assumes "extends is_timestep_constraint p q"
    and "list_all is_timestep_constraint (added_constraints p)"
  shows "list_all is_timestep_constraint (added_constraints q)"
  using assms extends_added [OF assms(1)] by auto

lemma init_decision_variables_frame:
  "post (init_decision_variables nts options i p)
     (\<lambda>e. added_constraints (snd e) = added_constraints p \<and> num_states (snd e) = num_states p
          \<and> constraints_fld (snd e) = constraints_fld p \<and> tree_fld (snd e) = tree_fld p
          \<and> (0 \<le> get_num_velocities (tree_fld p) \<longrightarrow>
                offset_vars_fld (snd e) = offset_vars_fld p))
     (\<lambda>q. added_constraints q = added_constraints p \<and> num_states q = num_states p
          \<and> constraints_fld q = constraints_fld p \<and> tree_fld q = tree_fld p
          \<and> length (offset_vars_fld q) = Suc (length (offset_vars_fld p)))"
  by (auto simp: init_decision_variables_def post_def and_then_def demand_def
      NewContinuousVariables_def Let_def split: option.splits)

lemma mode_body_stops:
  fixes p :: "'ty program"
  assumes "0 < num_states p" and "list_all is_timestep_constraint (added_constraints p)"
  shows "post (mode_body armed dyn tree nts mins maxs opts i (counter, p))
           (\<lambda>e. list_all is_timestep_constraint (added_constraints (snd e))
                \<and> num_states (snd e) = num_states p)
           (\<lambda>s. False)"
proof -
  let ?T = "\<lambda>q :: 'ty program. list_all is_timestep_constraint (added_constraints q)
              \<and> num_states q = num_states p"
  let ?E = "\<lambda>e :: failure \<times> 'ty program. ?T (snd e)"
  have ts: "post (set_timestep_bounds mins maxs i p0) ?E ?T" if "?T p0" for p0
  proof (rule post_weaken [OF post_extends [OF set_timestep_bounds_extends]])
    fix e :: "failure \<times> 'ty program" assume "extends is_timestep_constraint p0 (snd e)"
    with that show "?T (snd e)" by (simp add: extends_timestep extends_fields)
  next
    fix q assume "extends is_timestep_constraint p0 q"
    with that show "?T q" by (simp add: extends_timestep extends_fields)
  qed
  have init: "post (init_decision_variables nts opts i p0) ?E ?T" if "?T p0" for p0
    by (rule post_weaken [OF init_decision_variables_frame]) (use that in simp_all)
  have tail: "post (and_then (add_dynamic_constraints i q) (\<lambda>p.
     and_then (add_kinematic_constraints opts i p) f)) ?E (\<lambda>s. False)"
    if "?T q" for q and f :: "'ty program \<Rightarrow> ('ty, int \<times> 'ty program) run"
  proof -
    from that assms(1) have q: "0 < num_states q" by simp
    from add_dynamic_constraints_stops [OF q, of i] that
    show ?thesis
      by (auto simp: and_then_def post_def add_kinematic_constraints_stops [OF q])
  qed
  show ?thesis
    unfolding mode_body_def prod.case Let_def
    apply (rule post_and_then [where Q = ?T])
     apply (rule ts)
     apply (simp add: assms)
    apply (rule post_and_then [where Q = "\<lambda>ci. True"])
     apply (rule post_demand)
      apply simp
     apply simp
    apply (rule post_and_then [where Q = ?T])
     apply (rule init)
     apply simp
    apply (simp only: split: if_split)
    apply (intro conjI impI)
     apply (simp add: post_def)
    apply (erule tail)
    done
qed

lemma HybridDircon_stops:
  fixes options :: "'ty DirconOptions list"
  assumes "0 < get_num_positions tree + get_num_velocities tree"
    and "get_num_positions tree + get_num_velocities tree < 2 ^ 31"
  shows "list_all is_timestep_constraint
           (added_constraints (outcome (HybridDircon armed dyn tree nts mins maxs cs options
              :: ('ty, 'ty program) run)))
         \<and> (nts \<noteq> [] \<longrightarrow>
              failure_of (HybridDircon armed dyn tree nts mins maxs cs options
                 :: ('ty, 'ty program) run) \<noteq> None)"
proof -
  let ?ns = "int32 (get_num_positions tree + get_num_velocities tree)"
  let ?T = "\<lambda>q :: 'ty program. list_all is_timestep_constraint (added_constraints q)
              \<and> num_states q = ?ns"
  let ?E = "\<lambda>e :: failure \<times> 'ty program. ?T (snd e)"
  let ?base = "MultipleShooting (get_num_actuators tree) ?ns (int32 (sum_list nts)) (1 / 10 ^ 8)
                 (10 ^ 8) tree :: ('ty, 'ty program) run"
  have ns: "0 < ?ns" using assms by (simp add: int32_id)
  have base: "post ?base (\<lambda>e. added_constraints (snd e) = []) ?T"
    by (simp add: MultipleShooting_def post_def and_then_def NewContinuousVariables_def
        AddConstraint_def is_timestep_constraint_def)
  have "post (HybridDircon armed dyn tree nts mins maxs cs options :: ('ty, 'ty program) run)
          (\<lambda>e. list_all is_timestep_constraint (added_constraints (snd e)))
          (\<lambda>q. list_all is_timestep_constraint (added_constraints q) \<and> nts = [])"
    unfolding HybridDircon_def
  proof (rule post_and_then [OF post_weaken [OF base]])
    fix e :: "failure \<times> 'ty program" assume "added_constraints (snd e) = []"
    then show "list_all is_timestep_constraint (added_constraints (snd e))" by simp
  next
    fix q :: "'ty program" assume "?T q" then show "?T q" .
  next
    fix p0 :: "'ty program" assume p0: "?T p0"
    define p2 where "p2 = p0\<lparr>num_modes_fld := int (length nts), mode_lengths_fld := nts,
        tree_fld := tree, constraints_fld := cs\<rparr>"
    have loop: "post (for_loop 0 (int (length nts))
                 (mode_body armed dyn tree nts mins maxs options) (0, p2))
            (\<lambda>e. list_all is_timestep_constraint (added_constraints (snd e)))
            (\<lambda>s. (if 0 < int (length nts) then int (length nts) else 0) = 0 \<and> ?T (snd s))"
    proof (rule post_for_loop [where I = "\<lambda>k s. k = 0 \<and> ?T (snd s)"])
      show "(0::int) = 0 \<and> ?T (snd (0::int, p2))" using p0 by (simp add: p2_def)
    next
      fix k :: int and s :: "int \<times> 'ty program"
      assume "k = 0 \<and> ?T (snd s)"
      with ns have "0 < num_states (snd s)"
        "list_all is_timestep_constraint (added_constraints (snd s))" by simp_all
      from mode_body_stops [OF this, of armed dyn tree nts mins maxs options k "fst s"]
      show "post (mode_body armed dyn tree nts mins maxs options k s)
              (\<lambda>e. list_all is_timestep_constraint (added_constraints (snd e)))
              (\<lambda>s. k + 1 = 0 \<and> ?T (snd s))"
        by (auto elim!: post_weaken)
    qed
    have "post (and_then (for_loop 0 (int (length nts))
                 (mode_body armed dyn tree nts mins maxs options) (0, p2))
            (\<lambda>(counter, p). Inr p))
            (\<lambda>e. list_all is_timestep_constraint (added_constraints (snd e)))
            (\<lambda>q. list_all is_timestep_constraint (added_constraints q) \<and> nts = [])"
      by (rule post_and_then [OF loop]) (auto simp: post_def split: if_splits)
    with p0 show "post (let p = p0\<lparr>num_modes_fld := int (length nts), mode_lengths_fld := nts\<rparr>
       in if armed \<and> int (length mins) \<noteq> num_modes_fld p then Inl (AssertionFailure, p)
          else if armed \<and> int (length maxs) \<noteq> num_modes_fld p then Inl (AssertionFailure, p)
          else if armed \<and> int (length cs) \<noteq> num_modes_fld p then Inl (AssertionFailure, p)
          else let p = p\<lparr>tree_fld := tree, constraints_fld := cs\<rparr>
               in and_then (for_loop 0 (num_modes_fld p)
                 (mode_body armed dyn tree nts mins maxs options) (0, p))
                 (\<lambda>(counter, p). Inr p))
            (\<lambda>e. list_all is_timestep_constraint (added_constraints (snd e)))
            (\<lambda>q. list_all is_timestep_constraint (added_constraints q) \<and> nts = [])"
      by (auto simp: Let_def post_def p2_def)
  qed
  then show ?thesis
    by (auto simp: post_def outcome_def failure_of_def split: sum.splits)
qed


section \<open>Seeding and reconstruction\<close>

lemma assign_segment_length:
  "assign_segment g start n xs = Some g' \<Longrightarrow> length g' = length g"
  by (auto simp: assign_segment_def split: if_splits)

lemma assign_segment_here:
  "assign_segment g start n xs = Some g' \<Longrightarrow> segment g' start n = Some xs"
  by (auto simp: assign_segment_def segment_def split: if_splits)

lemma assign_segment_before:
  assumes "assign_segment g start n xs = Some g'" and "0 \<le> a" and "0 \<le> m" and "a + m \<le> start"
  shows "segment g' a m = segment g a m"
proof -
  from assms(1) have g': "g' = take (nat start) g @ xs @ drop (nat (start + n)) g"
    and r: "0 \<le> start" "0 \<le> n" "start + n \<le> int (length g)"
    by (auto simp: assign_segment_def split: if_splits)
  have le: "nat a + nat m \<le> nat start" using assms(2-4) by linarith
  have l: "nat start \<le> length g" using r by linarith
  have "take (nat m) (drop (nat a) g') = take (nat m) (drop (nat a) (take (nat start) g))"
    using le l by (simp add: g')
  also have "\<dots> = take (nat m) (drop (nat a) g)"
    using le by (simp add: drop_take min_def)
  finally show ?thesis
    using r assms(2-4) by (simp add: segment_def g')
qed

lemma seed_guess_Some:
  assumes "seed_guess ar p mode (Some val) n time v = Inr g"
    and "0 \<le> i" and "i < n"
  shows "\<exists>c. elem_at (num_kinematic_constraints_fld p) mode = Some c
           \<and> segment g (c * i) c = Some (val (time i))"
proof -
  let ?body = "\<lambda>i g. require (do {
              c \<leftarrow> elem_at (num_kinematic_constraints_fld p) mode;
              assign_segment g (c * i) c (val (time i)) })"
  let ?I = "\<lambda>k g. \<forall>i. 0 \<le> i \<and> i < k \<longrightarrow>
     (\<exists>c. elem_at (num_kinematic_constraints_fld p) mode = Some c
           \<and> segment g (c * i) c = Some (val (time i)))"
  have "post (for_loop 0 n ?body v) (\<lambda>e. True) (?I (if 0 < n then n else 0))"
  proof (rule post_for_loop [where I = ?I])
    show "?I 0 v" by auto
  next
    fix k g assume k: "0 \<le> k" "k < n" and inv: "?I k g"
    show "post (?body k g) (\<lambda>e. True) (?I (k + 1))"
    proof (cases "?body k g")
      case (Inl e) then show ?thesis by (simp add: post_def)
    next
      case (Inr g')
      then obtain c where c: "elem_at (num_kinematic_constraints_fld p) mode = Some c"
        and a: "assign_segment g (c * k) c (val (time k)) = Some g'"
        by (auto simp: require_def bind_eq_Some_conv split: option.splits)
      from a have c0: "0 \<le> c" by (auto simp: assign_segment_def split: if_splits)
      have "?I (k + 1) g'"
      proof (intro allI impI)
        fix i assume i: "0 \<le> i \<and> i < k + 1"
        show "\<exists>c. elem_at (num_kinematic_constraints_fld p) mode = Some c
           \<and> segment g' (c * i) c = Some (val (time i))"
        proof (cases "i = k")
          case True
          with c assign_segment_here [OF a] show ?thesis by simp
        next
          case False
          with i have ik: "i < k" by simp
          with i inv c have old: "segment g (c * i) c = Some (val (time i))" by auto
          have "c * i + c = c * (i + 1)" by (simp add: algebra_simps)
          also have "\<dots> \<le> c * k" using ik c0 by (intro mult_left_mono) simp_all
          finally have "c * i + c \<le> c * k" .
          from assign_segment_before [OF a _ c0 this] i c0 old c
          show ?thesis by simp
        qed
      qed
      with Inr show ?thesis by (simp add: post_def)
    qed
  qed
  with assms show ?thesis
    by (auto simp: seed_guess_def post_def split: if_splits)
qed

lemma seed_guess_length:
  assumes "seed_guess ar p mode traj n time v = Inr g"
  shows "length g = length v"
proof (cases traj)
  case None with assms show ?thesis by (auto simp: seed_guess_def)
next
  case (Some val)
  let ?body = "\<lambda>i g. require (do {
              c \<leftarrow> elem_at (num_kinematic_constraints_fld p) mode;
              assign_segment g (c * i) c (val (time i)) })"
  have "post (for_loop 0 n ?body v) (\<lambda>e. True) (\<lambda>g. length g = length v)"
  proof (rule post_for_loop [where I = "\<lambda>k g. length g = length v"])
    show "length v = length v" by simp
  next
    fix k :: int and g :: "'a list" assume "length g = length v"
    then show "post (?body k g) (\<lambda>e. True) (\<lambda>g. length g = length v)"
      by (auto simp: post_def require_def bind_eq_Some_conv assign_segment_length
          split: option.splits)
  qed
  with assms Some show ?thesis by (simp add: seed_guess_def post_def)
qed

lemma seed_guess_sampled:
  assumes "seed_guess ar p mode traj n time v = Inr g"
  shows "sampled (d_zero ar) p mode traj n time g"
proof (cases traj)
  case None
  with assms show ?thesis by (auto simp: seed_guess_def sampled_def)
next
  case (Some val)
  with assms seed_guess_Some [of ar p mode val n time v g] show ?thesis
    by (simp add: sampled_def)
qed

lemma SetInitialGuess_Cons:
  "SetInitialGuess (v # vs) (x # xs) g = SetInitialGuess vs xs (g(v := x))"
  by (simp add: SetInitialGuess_def)

lemma SetInitialGuess_other:
  "v \<notin> set vs \<Longrightarrow> SetInitialGuess vs xs g v = g v"
proof (induction vs arbitrary: xs g)
  case Nil then show ?case by (simp add: SetInitialGuess_def)
next
  case (Cons a vs)
  then show ?case
    by (cases xs) (simp_all add: SetInitialGuess_Cons, simp add: SetInitialGuess_def)
qed

lemma SetInitialGuess_nth:
  "distinct vs \<Longrightarrow> length xs = length vs \<Longrightarrow> n < length vs \<Longrightarrow>
   SetInitialGuess vs xs g (vs ! n) = xs ! n"
proof (induction vs arbitrary: xs g n)
  case Nil then show ?case by simp
next
  case (Cons a vs)
  then obtain x xs' where xs: "xs = x # xs'" by (cases xs) auto
  show ?case
  proof (cases n)
    case 0
    with Cons.prems xs show ?thesis
      by (simp add: SetInitialGuess_Cons SetInitialGuess_other)
  next
    case (Suc m)
    with Cons xs show ?thesis by (simp add: SetInitialGuess_Cons)
  qed
qed

lemma take_update_snoc: "k < length xs \<Longrightarrow> take (Suc k) (xs[k := v]) = take k xs @ [v]"
  by (simp add: take_Suc_conv_app_nth)

lemma sum_list_take_le:
  assumes "\<forall>l \<in> set ls. (0 :: int) \<le> l"
  shows "sum_list (take n ls) \<le> sum_list ls"
proof -
  have "sum_list ls = sum_list (take n ls) + sum_list (drop n ls)"
    by (metis append_take_drop_id sum_list_append)
  moreover have "0 \<le> sum_list (drop n ls)"
    using assms by (intro sum_list_nonneg) (auto dest: in_set_dropD)
  ultimately show ?thesis by simp
qed

lemma sum_list_take_nonneg:
  assumes "\<forall>l \<in> set ls. (0 :: int) \<le> l"
  shows "0 \<le> sum_list (take n ls)"
  using assms by (intro sum_list_nonneg) (auto dest: in_set_takeD)

lemma sum_list_take_Suc:
  "i < length ls \<Longrightarrow> sum_list (take (Suc i) ls) = sum_list (take i ls) + (ls ! i :: int)"
  by (simp add: take_Suc_conv_app_nth)

lemma reconstruct_knot_step:
  fixes p :: "'ty program" and s :: "('t, 'v) samples \<times> 'd list"
  assumes f: "filled n m sample_times S k ds s"
    and k: "k < n" "n \<le> length sample_times" and i: "i < m"
    and ms: "elem_at (mode_start_fld p) (int i) = Some (int k - j)"
    and S: "S = (\<lambda>k. GetSolution (the (state p (int k))))"
    and x: "state p (int k) \<noteq> None" and u: "input p (int k) \<noteq> None"
    and l: "force p (int i) j \<noteq> None"
  shows "\<exists>s'. reconstruct_knot p sample_times GetSolution XDot DiscardGradient (int i) j s
               = Some s'
           \<and> filled n m sample_times S (Suc k)
                (ds @ [knot_derivative p GetSolution XDot DiscardGradient (int i) j]) s'"
proof -
  obtain b c where s: "s = (b, c)" by (cases s)
  from x u l obtain xv uv lv where v: "state p (int k) = Some xv" "input p (int k) = Some uv"
    "force p (int i) j = Some lv" by auto
  from f s have len: "length (times_vec b) = n" "length (states b) = n"
    "length (inputs b) = n" "length (forces b) = n" "length (derivatives b) = n"
    "length c = m"
    and tk: "take k (times_vec b) = take k sample_times"
    "take k (states b) = map S [0 ..< k]" "take k (derivatives b) = ds"
    by (simp_all add: filled_def)
  have kd: "knot_derivative p GetSolution XDot DiscardGradient (int i) j
            = DiscardGradient (XDot (int i) (GetSolution xv) (GetSolution uv) (GetSolution lv))"
    using ms v by (simp add: knot_derivative_def)
  have "reconstruct_knot p sample_times GetSolution XDot DiscardGradient (int i) j s
        = Some (\<lparr>times_vec = (times_vec b)[k := sample_times ! k],
                 states = (states b)[k := GetSolution xv],
                 inputs = (inputs b)[k := GetSolution uv],
                 forces = (forces b)[k := GetSolution lv],
                 derivatives = (derivatives b)[k := DiscardGradient
                    (XDot (int i) (GetSolution xv) (GetSolution uv) (GetSolution lv))]\<rparr>,
                c[i := XDot (int i) (GetSolution xv) (GetSolution uv) (GetSolution lv)])"
    using k i ms v len
    by (simp add: reconstruct_knot_def s elem_at_def store_def updateData_def getXDot_def)
  moreover have "filled n m sample_times S (Suc k)
       (ds @ [knot_derivative p GetSolution XDot DiscardGradient (int i) j])
       (\<lparr>times_vec = (times_vec b)[k := sample_times ! k],
                 states = (states b)[k := GetSolution xv],
                 inputs = (inputs b)[k := GetSolution uv],
                 forces = (forces b)[k := GetSolution lv],
                 derivatives = (derivatives b)[k := DiscardGradient
                    (XDot (int i) (GetSolution xv) (GetSolution uv) (GetSolution lv))]\<rparr>,
                c[i := XDot (int i) (GetSolution xv) (GetSolution uv) (GetSolution lv)])"
    using k len tk v
    by (simp add: filled_def take_update_snoc kd S take_Suc_conv_app_nth [of k sample_times])
  ultimately show ?thesis by blast
qed

lemma post_Inr: "post r (\<lambda>e. False) R \<Longrightarrow> \<exists>a. r = Inr a \<and> R a"
  by (cases r) (simp_all add: post_def)

lemma reconstruct_mode:
  fixes p :: "'ty program" and s :: "('t, 'v) samples \<times> 'd list"
  assumes w: "reconstructible p sample_times (caches :: 'd list)"
    and i: "i < length (mode_lengths_fld p)"
    and S: "S = (\<lambda>k. GetSolution (the (state p (int k))))"
    and f: "filled (nat (N p)) (length (mode_lengths_fld p)) sample_times S
              (nat (sum_list (take i (mode_lengths_fld p)))) ds s"
  shows "post (for_loop 0 (mode_lengths_fld p ! i)
                 (\<lambda>j s. require (reconstruct_knot p sample_times GetSolution XDot
                            DiscardGradient (int i) j s)) s)
           (\<lambda>e. False)
           (filled (nat (N p)) (length (mode_lengths_fld p)) sample_times S
              (nat (sum_list (take (Suc i) (mode_lengths_fld p))))
              (ds @ map (\<lambda>j. knot_derivative p GetSolution XDot DiscardGradient (int i) (int j))
                     [0 ..< nat (mode_lengths_fld p ! i)]))"
proof -
  let ?ls = "mode_lengths_fld p"
  let ?KD = "\<lambda>j. knot_derivative p GetSolution XDot DiscardGradient (int i) (int j)"
  let ?st = "sum_list (take i ?ls)"
  let ?F = "filled (nat (N p)) (length ?ls) sample_times S"
  let ?I = "\<lambda>j s. 0 \<le> j \<and> ?F (nat (?st + j)) (ds @ map ?KD [0 ..< nat j]) s"
  from w have nonneg: "\<forall>l \<in> set ?ls. 0 \<le> l" and N: "N p = sum_list ?ls"
    and tm: "int (length sample_times) = N p"
    and ms: "mode_start_fld p = map (\<lambda>i. sum_list (take i ?ls)) [0 ..< length ?ls]"
    and xu: "\<And>k. 0 \<le> k \<Longrightarrow> k < N p \<Longrightarrow> state p k \<noteq> None \<and> input p k \<noteq> None"
    and fo: "\<And>j. 0 \<le> j \<Longrightarrow> j < ?ls ! i \<Longrightarrow> force p (int i) j \<noteq> None"
    using i by (auto simp: reconstructible_def)
  have st0: "0 \<le> ?st" by (rule sum_list_take_nonneg [OF nonneg])
  have li: "0 \<le> ?ls ! i" using nonneg i by simp
  have top: "?st + ?ls ! i \<le> N p"
    using sum_list_take_le [OF nonneg, of "Suc i"] i by (simp add: N sum_list_take_Suc)
  have msi: "elem_at (mode_start_fld p) (int i) = Some ?st"
    using i by (simp add: ms elem_at_def)
  have "post (for_loop 0 (?ls ! i)
                 (\<lambda>j s. require (reconstruct_knot p sample_times GetSolution XDot
                            DiscardGradient (int i) j s)) s)
           (\<lambda>e. False) (?I (if 0 < ?ls ! i then ?ls ! i else 0))"
  proof (rule post_for_loop [where I = ?I])
    show "?I 0 s" using f by simp
  next
    fix j and t :: "('t, 'v) samples \<times> 'd list"
    assume j: "0 \<le> j" "j < ?ls ! i" and inv: "?I j t"
    let ?k = "nat (?st + j)"
    have k: "int ?k = ?st + j" using st0 j by simp
    have kN: "?st + j < N p" using top j by simp
    have p1: "?F ?k (ds @ map ?KD [0 ..< nat j]) t" using inv by simp
    have p2: "?k < nat (N p)" using kN st0 j by simp
    have p3: "nat (N p) \<le> length sample_times" using tm by simp
    have p4: "elem_at (mode_start_fld p) (int i) = Some (int ?k - j)" using msi k by simp
    have p5: "state p (int ?k) \<noteq> None" "input p (int ?k) \<noteq> None"
      using xu [of "?st + j"] kN st0 j k by simp_all
    from reconstruct_knot_step [OF p1 p2 p3 i p4 S p5 fo [OF j],
        of XDot DiscardGradient]
    obtain t' where
      t': "reconstruct_knot p sample_times GetSolution XDot DiscardGradient (int i) j t = Some t'"
      and ft: "?F (Suc ?k) ((ds @ map ?KD [0 ..< nat j])
                 @ [knot_derivative p GetSolution XDot DiscardGradient (int i) j]) t'"
      by blast
    have "Suc ?k = nat (?st + (j + 1))" using st0 j by simp
    moreover have "(ds @ map ?KD [0 ..< nat j])
                 @ [knot_derivative p GetSolution XDot DiscardGradient (int i) j]
               = ds @ map ?KD [0 ..< nat (j + 1)]"
      using j by (simp add: nat_add_distrib)
    ultimately have "?I (j + 1) t'" using ft j by simp
    with t' show "post (require (reconstruct_knot p sample_times GetSolution XDot
                            DiscardGradient (int i) j t)) (\<lambda>e. False) (?I (j + 1))"
      by (simp add: post_def require_def)
  qed
  moreover have "(if 0 < ?ls ! i then ?ls ! i else 0) = ?ls ! i" using li by simp
  ultimately have "post (for_loop 0 (?ls ! i)
                 (\<lambda>j s. require (reconstruct_knot p sample_times GetSolution XDot
                            DiscardGradient (int i) j s)) s)
           (\<lambda>e. False) (?I (?ls ! i))"
    by (simp only:)
  then show ?thesis
    using i by (auto elim!: post_weaken simp: sum_list_take_Suc)
qed

lemma ReconstructStateTrajectory_result:
  fixes p :: "'ty program" and caches :: "'d list" and m0 :: 'v and t0 :: 't
  assumes w: "reconstructible p sample_times caches"
  shows "map_sum (\<lambda>f. f) fst
           (ReconstructStateTrajectory p sample_times GetSolution XDot DiscardGradient
              Cubic t0 m0 caches)
         = Inr (Cubic sample_times
                 (map (\<lambda>k. GetSolution (the (state p (int k)))) [0 ..< nat (N p)])
                 (concat (map (\<lambda>i. map (\<lambda>j. knot_derivative p GetSolution XDot
                                              DiscardGradient (int i) (int j))
                                   [0 ..< nat (mode_lengths_fld p ! i)])
                           [0 ..< length (mode_lengths_fld p)])))"
proof -
  let ?ls = "mode_lengths_fld p"
  let ?S = "\<lambda>k. GetSolution (the (state p (int k)))"
  let ?row = "\<lambda>i. map (\<lambda>j. knot_derivative p GetSolution XDot DiscardGradient (int i) (int j))
                     [0 ..< nat (?ls ! i)]"
  let ?F = "filled (nat (N p)) (length ?ls) sample_times ?S"
  let ?I = "\<lambda>i s. 0 \<le> i \<and> i \<le> int (length ?ls)
              \<and> ?F (nat (sum_list (take (nat i) ?ls))) (concat (map ?row [0 ..< nat i])) s"
  let ?s0 = "(\<lparr>times_vec = replicate (nat (N p)) t0, states = replicate (nat (N p)) m0,
            inputs = replicate (nat (N p)) m0, forces = replicate (nat (N p)) m0,
            derivatives = replicate (nat (N p)) m0\<rparr>, caches)"
  let ?body = "\<lambda>i s. and_then (require (elem_at ?ls i)) (\<lambda>len.
           for_loop 0 len (\<lambda>j s.
             require (reconstruct_knot p sample_times GetSolution XDot DiscardGradient i j s)) s)"
  from w have nonneg: "\<forall>l \<in> set ?ls. 0 \<le> l" and N: "N p = sum_list ?ls"
    and tm: "int (length sample_times) = N p" and M: "num_modes_fld p = int (length ?ls)"
    and c: "length caches = length ?ls"
    by (auto simp: reconstructible_def)
  have N0: "0 \<le> N p" unfolding N using nonneg by (intro sum_list_nonneg) auto
  have "post (for_loop 0 (num_modes_fld p) ?body ?s0) (\<lambda>e. False)
          (?I (if 0 < num_modes_fld p then num_modes_fld p else 0))"
  proof (rule post_for_loop [where I = ?I])
    show "?I 0 ?s0" using c by (simp add: filled_def)
  next
    fix i and s :: "('t, 'v) samples \<times> 'd list"
    assume i: "0 \<le> i" "i < num_modes_fld p" and inv: "?I i s"
    from i M have il: "nat i < length ?ls" by simp
    have e: "elem_at ?ls i = Some (?ls ! nat i)" using i il by (simp add: elem_at_def)
    from inv have f: "?F (nat (sum_list (take (nat i) ?ls))) (concat (map ?row [0 ..< nat i])) s"
      by simp
    have "post (for_loop 0 (?ls ! nat i)
                 (\<lambda>j s. require (reconstruct_knot p sample_times GetSolution XDot
                            DiscardGradient (int (nat i)) j s)) s)
           (\<lambda>e. False)
           (?F (nat (sum_list (take (Suc (nat i)) ?ls)))
              (concat (map ?row [0 ..< nat i]) @ ?row (nat i)))"
      by (rule reconstruct_mode [OF w il refl f])
    moreover have "nat (i + 1) = Suc (nat i)" using i by simp
    ultimately show "post (?body i s) (\<lambda>e. False) (?I (i + 1))"
      using i il M by (simp add: e and_then_def require_def post_def split: sum.splits)
  qed
  moreover have "(if 0 < num_modes_fld p then num_modes_fld p else 0) = int (length ?ls)"
    using M by simp
  ultimately have "post (for_loop 0 (num_modes_fld p) ?body ?s0) (\<lambda>e. False)
                     (?I (int (length ?ls)))"
    by (simp only:)
  from post_Inr [OF this] obtain s where
    run: "for_loop 0 (num_modes_fld p) ?body ?s0 = Inr s"
    and fin: "?F (nat (N p)) (concat (map ?row [0 ..< length ?ls])) s"
    by (auto simp: N)
  from fin tm have "times_vec (fst s) = sample_times"
    "states (fst s) = map ?S [0 ..< nat (N p)]"
    "derivatives (fst s) = concat (map ?row [0 ..< length ?ls])"
    by (auto simp: filled_def)
  with run N0 show ?thesis
    by (auto simp: ReconstructStateTrajectory_def and_then_def split: prod.splits)
qed

lemma ReconstructInputTrajectory_result:
  fixes p :: "'ty program" and caches :: "'d list" and m0 :: 'v and t0 :: 't
  assumes w: "reconstructible p sample_times caches"
  shows "ReconstructInputTrajectory p sample_times GetSolution FirstOrderHold t0 m0
         = Inr (FirstOrderHold sample_times
                 (map (\<lambda>k. GetSolution (the (input p (int k)))) [0 ..< nat (N p)]))"
proof -
  let ?U = "\<lambda>k. GetSolution (the (input p (int k)))"
  let ?n = "nat (N p)"
  let ?I = "\<lambda>k (s :: 't list \<times> 'v list). 0 \<le> k \<and> length (fst s) = ?n \<and> length (snd s) = ?n
              \<and> take (nat k) (fst s) = take (nat k) sample_times
              \<and> take (nat k) (snd s) = map ?U [0 ..< nat k]"
  let ?body = "\<lambda>i (times_vec, inputs).
           require (do {
             t \<leftarrow> elem_at sample_times i;
             tv \<leftarrow> store times_vec i t;
             u \<leftarrow> input p i;
             uv \<leftarrow> store inputs i (GetSolution u);
             Some (tv, uv) })"
  from w have N: "N p = sum_list (mode_lengths_fld p)"
    and nonneg: "\<forall>l \<in> set (mode_lengths_fld p). 0 \<le> l"
    and tm: "int (length sample_times) = N p"
    and xu: "\<And>k. 0 \<le> k \<Longrightarrow> k < N p \<Longrightarrow> input p k \<noteq> None"
    by (auto simp: reconstructible_def)
  have N0: "0 \<le> N p" unfolding N using nonneg by (intro sum_list_nonneg) auto
  have "post (for_loop 0 (N p) ?body (replicate ?n t0, replicate ?n m0)) (\<lambda>e. False)
          (?I (if 0 < N p then N p else 0))"
  proof (rule post_for_loop [where I = ?I])
    show "?I 0 (replicate ?n t0, replicate ?n m0)" by simp
  next
    fix k and s :: "'t list \<times> 'v list"
    assume k: "0 \<le> k" "k < N p" and inv: "?I k s"
    obtain tv uv where s: "s = (tv, uv)" by (cases s)
    from xu [OF k] obtain u where u: "input p k = Some u" by auto
    have kn: "nat k < ?n" "nat k < length sample_times" using k tm by simp_all
    have "?body k s = Inr (tv[nat k := sample_times ! nat k], uv[nat k := GetSolution u])"
      using k kn inv u by (simp add: s require_def elem_at_def store_def)
    moreover have "?I (k + 1) (tv[nat k := sample_times ! nat k], uv[nat k := GetSolution u])"
      using k kn inv u
      by (simp add: s nat_add_distrib take_update_snoc
          take_Suc_conv_app_nth [of "nat k" sample_times])
    ultimately show "post (?body k s) (\<lambda>e. False) (?I (k + 1))"
      by (simp add: post_def)
  qed
  moreover have "(if 0 < N p then N p else 0) = N p" using N0 by simp
  ultimately have "post (for_loop 0 (N p) ?body (replicate ?n t0, replicate ?n m0))
                     (\<lambda>e. False) (?I (N p))"
    by (simp only:)
  from post_Inr [OF this] obtain s where
    run: "for_loop 0 (N p) ?body (replicate ?n t0, replicate ?n m0) = Inr s"
    and fin: "?I (N p) s"
    by blast
  from fin tm have "fst s = sample_times" "snd s = map ?U [0 ..< ?n]"
    by auto
  with run N0 show ?thesis
    by (auto simp: ReconstructInputTrajectory_def and_then_def split: prod.splits)
qed


section \<open>What the costs of \<open>DoAddRunningCost\<close> sum to\<close>

text \<open>
  For a transcription of at least two knots with \<open>N - 1\<close> timestep variables,
  \<open>DoAddRunningCost\<close> returns, and the costs it adds sum to
  \<open>g\<^sub>0 h\<^sub>0 / 4 + (\<Sum>i = 1..N - 3. g\<^sub>i (h\<^bsub>i - 1\<^esub> + h\<^sub>i) / 2) + g\<^bsub>N - 1\<^esub> h\<^bsub>N - 2\<^esub> / 4\<close>.
\<close>

lemma total_running_cost_AddCost:
  "total_running_cost g \<sigma> (AddCost c p) = total_running_cost g \<sigma> p + running_cost_value g \<sigma> c"
  by (simp add: total_running_cost_def AddCost_def)

lemma AddCost_fields [simp]: "h_vars (AddCost c p) = h_vars p" "N (AddCost c p) = N p"
  by (simp_all add: AddCost_def)

lemma DoAddRunningCost_total:
  fixes p :: "'ty program"
  assumes "2 \<le> N p" and "int (length (h_vars p)) = N p - 1"
  shows "\<exists>q. DoAddRunningCost p = Inr q
          \<and> total_running_cost g \<sigma> q = total_running_cost g \<sigma> p
              + g 0 * \<sigma> (h_vars p ! 0) / 4
              + (\<Sum>i \<leftarrow> [1 .. N p - 3].
                    g i * (\<sigma> (h_vars p ! nat (i - 1)) + \<sigma> (h_vars p ! nat i)) / 2)
              + g (N p - 1) * \<sigma> (h_vars p ! nat (N p - 2)) / 4"
proof -
  let ?h = "\<lambda>i. h_vars p ! nat i"
  let ?summand = "\<lambda>i. g i * (\<sigma> (?h (i - 1)) + \<sigma> (?h i)) / 2"
  let ?p1 = "AddCost (RunningCost (0.5 * (1 / 2)) 0 [?h 0]) p"
  let ?body = "\<lambda>i (q :: 'ty program).
         and_then (demand q (do {
             a \<leftarrow> elem_at (h_vars q) (i - 1);
             b \<leftarrow> elem_at (h_vars q) i;
             Some (RunningCost (1 / 2) i [a, b]) }))
           (\<lambda>c. Inr (AddCost c q))"
  let ?I = "\<lambda>k (q :: 'ty program). 1 \<le> k \<and> h_vars q = h_vars p \<and> N q = N p
     \<and> total_running_cost g \<sigma> q
        = total_running_cost g \<sigma> ?p1 + (\<Sum>i \<leftarrow> [1 .. k - 1]. ?summand i)"
  have h0: "elem_at (h_vars p) 0 = Some (?h 0)"
    using assms by (simp add: elem_at_def)
  have "post (for_loop 1 (N ?p1 - 2) ?body ?p1) (\<lambda>e. False)
          (?I (if 1 < N ?p1 - 2 then N ?p1 - 2 else 1))"
  proof (rule post_for_loop [where I = ?I])
    show "?I 1 ?p1" by simp
  next
    fix k and q :: "'ty program"
    assume k: "1 \<le> k" "k < N ?p1 - 2" and inv: "?I k q"
    have "elem_at (h_vars q) (k - 1) = Some (?h (k - 1))" "elem_at (h_vars q) k = Some (?h k)"
      using k inv assms by (simp_all add: elem_at_def)
    then have b: "?body k q = Inr (AddCost (RunningCost (1 / 2) k [?h (k - 1), ?h k]) q)"
      by (simp add: demand_def and_then_def)
    have "[1 .. k + 1 - 1] = [1 .. k - 1] @ [k]"
      using k by (simp add: upto_rec2)
    then have "?I (k + 1) (AddCost (RunningCost (1 / 2) k [?h (k - 1), ?h k]) q)"
      using k inv
      by (simp add: total_running_cost_AddCost running_cost_value_def algebra_simps)
    with b show "post (?body k q) (\<lambda>e. False) (?I (k + 1))"
      by (simp add: post_def)
  qed
  then obtain q where loop: "for_loop 1 (N ?p1 - 2) ?body ?p1 = Inr q"
    and inv: "?I (if 1 < N ?p1 - 2 then N ?p1 - 2 else 1) q"
    by (auto simp: post_def split: sum.splits)
  have sum: "(\<Sum>i \<leftarrow> [1 .. (if 1 < N p - 2 then N p - 2 else 1) - 1]. ?summand i)
           = (\<Sum>i \<leftarrow> [1 .. N p - 3]. ?summand i)"
    using assms(1) by (cases "1 < N p - 2") (simp_all add: algebra_simps)
  have hl: "elem_at (h_vars q) (N q - 2) = Some (?h (N p - 2))"
    using inv assms by (simp add: elem_at_def)
  let ?q' = "AddCost (RunningCost (0.5 * (1 / 2)) (N q - 1) [?h (N p - 2)]) q"
  have "DoAddRunningCost p = Inr ?q'"
    using h0 loop hl by (simp add: DoAddRunningCost_def demand_def and_then_def Let_def)
  moreover have "total_running_cost g \<sigma> ?q' = total_running_cost g \<sigma> p
              + g 0 * \<sigma> (?h 0) / 4 + (\<Sum>i \<leftarrow> [1 .. N p - 3]. ?summand i)
              + g (N p - 1) * \<sigma> (?h (N p - 2)) / 4"
    using inv sum
    by (simp add: total_running_cost_AddCost running_cost_value_def)
  ultimately show ?thesis by auto
qed

lemma failure_of_None: "failure_of r = None \<Longrightarrow> \<exists>p. r = Inr p"
  by (cases r) (auto simp: failure_of_def)

section \<open>Where the constructor can stop at an assertion\<close>

text \<open>
  No section of the constructor stops at an assertion: they stop only where an index is out
  of range or a size is negative.  The assertions are the three on the lengths and the one
  on the dimension of the dynamic constraint.
\<close>

lemma unasserted_Inr [simp]: "unasserted (Inr a)"
  by (simp add: unasserted_def failure_of_def)

lemma unasserted_Inl [simp]: "unasserted (Inl (f, p)) \<longleftrightarrow> f \<noteq> AssertionFailure"
  by (simp add: unasserted_def failure_of_def)

lemma unasserted_and_then:
  "unasserted m \<Longrightarrow> (\<And>a. m = Inr a \<Longrightarrow> unasserted (f a)) \<Longrightarrow> unasserted (and_then m f)"
  by (cases m) (auto simp: and_then_def)

lemma unasserted_demand [simp]: "unasserted (demand p x)"
  by (cases x) (simp_all add: demand_def)

lemma unasserted_demand_then:
  "(\<And>a. x = Some a \<Longrightarrow> unasserted (f a)) \<Longrightarrow> unasserted (and_then (demand p x) f)"
  by (cases x) (simp_all add: demand_def and_then_def)

lemma unasserted_New [simp]: "unasserted (NewContinuousVariables rows p)"
  by (simp add: NewContinuousVariables_def)

lemma unasserted_for_loop:
  assumes "\<And>k s. unasserted (body k s)"
  shows "unasserted (for_loop j n body s)"
proof -
  have "case for_loop j n body s of Inl e \<Rightarrow> fst e \<noteq> AssertionFailure | Inr s' \<Rightarrow> True"
  proof (rule for_loop_preserves [where I = "\<lambda>s. True"])
    fix k s e assume "body k s = Inl e"
    with assms [of k s] show "fst e \<noteq> AssertionFailure" by (cases e) simp
  qed simp_all
  then show ?thesis by (auto split: sum.splits)
qed

lemma set_timestep_bounds_unasserted: "unasserted (set_timestep_bounds mins maxs i p)"
  unfolding set_timestep_bounds_def
  by (intro unasserted_demand_then unasserted_and_then unasserted_for_loop) simp_all

lemma add_dynamic_constraints_unasserted: "unasserted (add_dynamic_constraints i p)"
  unfolding add_dynamic_constraints_def
  by (intro unasserted_demand_then unasserted_and_then unasserted_for_loop) simp_all

lemma add_kinematic_constraints_unasserted:
  "unasserted (add_kinematic_constraints options i p)"
  unfolding add_kinematic_constraints_def Let_def
  by (intro unasserted_demand_then unasserted_and_then unasserted_for_loop) simp_all

lemma add_force_constraints_unasserted: "unasserted (add_force_constraints i p)"
  unfolding add_force_constraints_def Let_def
  by (intro unasserted_demand_then unasserted_and_then unasserted_for_loop)
     (auto intro!: unasserted_demand_then unasserted_and_then unasserted_for_loop
        split: prod.splits)

lemma add_force_cost_unasserted: "unasserted (add_force_cost options i p)"
  unfolding add_force_cost_def
  by (intro unasserted_demand_then)
     (auto intro!: unasserted_demand_then unasserted_and_then unasserted_for_loop)

lemma init_decision_variables_unasserted:
  "unasserted (init_decision_variables nts options i p)"
  unfolding init_decision_variables_def Let_def
  by (intro unasserted_demand_then unasserted_and_then)
     (auto intro!: unasserted_demand_then unasserted_and_then split: prod.splits)

text \<open>
  The check of the dimension of the dynamic constraint, with assertions compiled in: a
  mode iteration that starts with the modes before it checked either stops, at the
  assertion exactly when the dimension differs, or ends with its own mode checked as
  well.
\<close>

lemma post_conj:
  assumes "post r E R" and "post r E' R'"
  shows "post r (\<lambda>e. E e \<and> E' e) (\<lambda>a. R a \<and> R' a)"
  using assms by (cases r) (simp_all add: post_def)

lemma post_unasserted:
  assumes "unasserted r"
  shows "post r (\<lambda>e. fst e \<noteq> AssertionFailure) (\<lambda>a. True)"
  using assms by (cases r) (auto simp: post_def unasserted_def failure_of_def)

lemma at_mode_extends:
  assumes "extends P p q" and "at_mode dyn tree cs ns k p"
  shows "at_mode dyn tree cs ns k q"
  using assms(2) by (simp add: at_mode_def extends_fields [OF assms(1)])

lemma stopped_at_mode:
  assumes "f \<noteq> AssertionFailure" and "at_mode dyn tree cs ns k p"
  shows "stopped dyn tree cs ns f p"
  using assms by (simp add: stopped_def at_mode_def)

lemma section_at_mode:
  assumes "unasserted r" and "extends P p (ends (\<lambda>p. p) r)" and "at_mode dyn tree cs ns k p"
  shows "post r (\<lambda>e. stopped dyn tree cs ns (fst e) (snd e)) (at_mode dyn tree cs ns k)"
proof (rule post_weaken [OF post_conj [OF post_unasserted [OF assms(1)]
        post_extends [OF assms(2)]]])
  fix e :: "failure \<times> 'a program"
  assume "fst e \<noteq> AssertionFailure \<and> extends P p (snd e)"
  with assms(3) show "stopped dyn tree cs ns (fst e) (snd e)"
    by (auto intro: stopped_at_mode at_mode_extends)
next
  fix q assume "True \<and> extends P p q"
  with assms(3) show "at_mode dyn tree cs ns k q" by (auto intro: at_mode_extends)
qed

lemma init_decision_variables_at_mode:
  assumes "at_mode dyn tree cs ns k p" and "0 \<le> get_num_velocities tree"
  shows "post (init_decision_variables nts opts i p)
           (\<lambda>e. stopped dyn tree cs ns (fst e) (snd e))
           (\<lambda>q. constraints_fld q = cs \<and> tree_fld q = tree
                \<and> num_states q = ns
                \<and> length (offset_vars_fld q) = Suc k)"
proof (rule post_weaken [OF post_conj [OF post_unasserted
        [OF init_decision_variables_unasserted] init_decision_variables_frame]])
  fix e :: "failure \<times> 'a program"
  assume "fst e \<noteq> AssertionFailure
    \<and> (added_constraints (snd e) = added_constraints p \<and> num_states (snd e) = num_states p
          \<and> constraints_fld (snd e) = constraints_fld p \<and> tree_fld (snd e) = tree_fld p
          \<and> (0 \<le> get_num_velocities (tree_fld p) \<longrightarrow>
                offset_vars_fld (snd e) = offset_vars_fld p))"
  with assms show "stopped dyn tree cs ns (fst e) (snd e)"
    by (simp add: stopped_def at_mode_def)
next
  fix q
  assume "True \<and> (added_constraints q = added_constraints p \<and> num_states q = num_states p
          \<and> constraints_fld q = constraints_fld p \<and> tree_fld q = tree_fld p
          \<and> length (offset_vars_fld q) = Suc (length (offset_vars_fld p)))"
  with assms show "constraints_fld q = cs \<and> tree_fld q = tree
                \<and> num_states q = ns
                \<and> length (offset_vars_fld q) = Suc k"
    by (simp add: at_mode_def)
qed

lemma mode_body_checked:
  fixes p :: "'ty program"
  assumes p: "at_mode dyn tree cs ns (nat k) p" and k: "0 \<le> k"
    and nv: "0 \<le> get_num_velocities tree"
  shows "post (mode_body True dyn tree nts mins maxs opts k (counter, p))
           (\<lambda>e. stopped dyn tree cs ns (fst e) (snd e))
           (\<lambda>s. at_mode dyn tree cs ns (Suc (nat k)) (snd s))"
proof -
  let ?A = "at_mode dyn tree cs ns"
  let ?E = "\<lambda>e :: failure \<times> 'ty program. stopped dyn tree cs ns (fst e) (snd e)"
  let ?ns = ns
  have tail: "post (and_then (add_dynamic_constraints k q) (\<lambda>p.
     and_then (add_kinematic_constraints opts k p) (\<lambda>p.
     and_then (add_force_constraints k p) (\<lambda>p.
     and_then (add_force_cost opts k p) (\<lambda>p.
     and_then (demand p (elem_at (mode_lengths_fld p) k)) (\<lambda>len.
     Inr (counter + len, p))))))) ?E (\<lambda>s. ?A (Suc (nat k)) (snd s))"
    if q: "?A (Suc (nat k)) q" for q
    apply (rule post_and_then [where Q = "?A (Suc (nat k))"])
     apply (rule section_at_mode [OF add_dynamic_constraints_unasserted
          add_dynamic_constraints_extends q])
    apply (rule post_and_then [where Q = "?A (Suc (nat k))"])
     apply (erule section_at_mode [OF add_kinematic_constraints_unasserted
          add_kinematic_constraints_extends])
    apply (rule post_and_then [where Q = "?A (Suc (nat k))"])
     apply (erule section_at_mode [OF add_force_constraints_unasserted
          add_force_constraints_extends])
    apply (rule post_and_then [where Q = "?A (Suc (nat k))"])
     apply (erule section_at_mode [OF add_force_cost_unasserted add_force_cost_extends])
    apply (rule post_and_then [where Q = "\<lambda>len. True"])
     apply (rule post_demand)
      apply (simp add: stopped_at_mode)
     apply simp
    apply (simp add: post_def)
    done
  have check: "post (if True \<and> dyn tree ci \<noteq> num_states q then Inl (AssertionFailure, q)
     else and_then (add_dynamic_constraints k q) (\<lambda>p.
     and_then (add_kinematic_constraints opts k p) (\<lambda>p.
     and_then (add_force_constraints k p) (\<lambda>p.
     and_then (add_force_cost opts k p) (\<lambda>p.
     and_then (demand p (elem_at (mode_lengths_fld p) k)) (\<lambda>len.
     Inr (counter + len, p))))))) ?E (\<lambda>s. ?A (Suc (nat k)) (snd s))"
    if ci: "elem_at cs k = Some ci"
      and q: "constraints_fld q = cs \<and> tree_fld q = tree \<and> num_states q = ?ns
              \<and> length (offset_vars_fld q) = Suc (nat k)"
    for q ci
  proof -
    from ci k have kc: "nat k < length cs" and cik: "ci = cs ! nat k"
      by (auto simp: elem_at_def split: if_splits)
    from p have ch: "checked dyn tree cs ns (nat k)" by (simp add: at_mode_def)
    show ?thesis
    proof (cases "dyn tree ci = ?ns")
      case False
      with q kc cik ch have "stopped dyn tree cs ns AssertionFailure q"
        by (auto simp: stopped_def)
      with False q show ?thesis by (simp add: post_def)
    next
      case True
      with ch kc cik have "checked dyn tree cs ns (Suc (nat k))"
        by (auto simp: checked_def less_Suc_eq)
      with q have "?A (Suc (nat k)) q" by (simp add: at_mode_def)
      from tail [OF this] True q show ?thesis by simp
    qed
  qed
  have p': "?A (nat k) (p\<lparr>mode_start_fld := mode_start_fld p @ [counter]\<rparr>)"
    using p by (simp add: at_mode_def)
  show ?thesis
    unfolding mode_body_def prod.case Let_def
    apply (rule post_and_then [where Q = "?A (nat k)"])
     apply (rule section_at_mode [OF set_timestep_bounds_unasserted
          set_timestep_bounds_extends p'])
    apply (rule post_and_then [where Q = "\<lambda>ci. elem_at cs k = Some ci"])
     apply (rule post_demand)
      apply (simp add: stopped_at_mode)
     apply (simp add: at_mode_def)
    apply (rule post_and_then [where Q = "\<lambda>q. constraints_fld q = cs \<and> tree_fld q = tree
              \<and> num_states q = ?ns \<and> length (offset_vars_fld q) = Suc (nat k)"])
     apply (rule init_decision_variables_at_mode [OF _ nv])
     apply (simp add: at_mode_def)
    apply (erule (1) check)
    done
qed

lemma HybridDircon_checked:
  fixes options :: "'ty DirconOptions list"
  assumes nv: "0 \<le> get_num_velocities tree"
  shows "post (HybridDircon True dyn tree nts mins maxs cs options :: ('ty, 'ty program) run)
           (\<lambda>e. stopped dyn tree cs
                  (int32 (get_num_positions tree + get_num_velocities tree)) (fst e) (snd e))
           (at_mode dyn tree cs (int32 (get_num_positions tree + get_num_velocities tree))
              (length nts))"
proof -
  let ?ns = "int32 (get_num_positions tree + get_num_velocities tree)"
  let ?A = "at_mode dyn tree cs ?ns"
  let ?E = "\<lambda>e :: failure \<times> 'ty program. stopped dyn tree cs ?ns (fst e) (snd e)"
  let ?Q = "\<lambda>p :: 'ty program. offset_vars_fld p = [] \<and> num_states p = ?ns"
  let ?base = "MultipleShooting (get_num_actuators tree) ?ns (int32 (sum_list nts)) (1 / 10 ^ 8)
                 (10 ^ 8) tree :: ('ty, 'ty program) run"
  have base: "post ?base ?E ?Q"
    by (simp add: MultipleShooting_def post_def and_then_def NewContinuousVariables_def
        AddConstraint_def stopped_def checked_def)
  show ?thesis
    unfolding HybridDircon_def
  proof (rule post_and_then [OF base])
    fix p0 :: "'ty program" assume p0: "?Q p0"
    define p1 where "p1 = p0\<lparr>num_modes_fld := int (length nts), mode_lengths_fld := nts\<rparr>"
    define p2 where "p2 = p1\<lparr>tree_fld := tree, constraints_fld := cs\<rparr>"
    have e1: "?E (AssertionFailure, p1)"
      using p0 by (simp add: p1_def stopped_def)
    have a2: "?A 0 p2"
      using p0 by (simp add: p2_def p1_def at_mode_def checked_def)
    have loop: "post (for_loop 0 (num_modes_fld p2)
                 (mode_body True dyn tree nts mins maxs options) (0, p2))
            ?E (\<lambda>s. 0 \<le> (if 0 < num_modes_fld p2 then num_modes_fld p2 else 0)
                    \<and> ?A (nat (if 0 < num_modes_fld p2 then num_modes_fld p2 else 0)) (snd s))"
    proof (rule post_for_loop [where I = "\<lambda>k s. 0 \<le> k \<and> ?A (nat k) (snd s)"])
      show "0 \<le> (0::int) \<and> ?A (nat 0) (snd (0::int, p2))" using a2 by simp
    next
      fix k :: int and s :: "int \<times> 'ty program"
      assume k: "0 \<le> k" and "0 \<le> k \<and> ?A (nat k) (snd s)"
      then have "?A (nat k) (snd s)" by simp
      from mode_body_checked [OF this k nv, of nts mins maxs options "fst s"] k
      show "post (mode_body True dyn tree nts mins maxs options k s) ?E
                   (\<lambda>s. 0 \<le> k + 1 \<and> ?A (nat (k + 1)) (snd s))"
        by (auto elim!: post_weaken simp: nat_add_distrib)
    qed
    have m: "nat (if 0 < num_modes_fld p2 then num_modes_fld p2 else 0) = length nts"
      by (simp add: p2_def p1_def)
    have "post (and_then (for_loop 0 (num_modes_fld p2)
                 (mode_body True dyn tree nts mins maxs options) (0, p2))
            (\<lambda>(counter, p). Inr p)) ?E (?A (length nts))"
      by (rule post_and_then [OF loop]) (auto simp: m post_def split: prod.splits)
    with e1 show "post (let p = p0\<lparr>num_modes_fld := int (length nts), mode_lengths_fld := nts\<rparr>
       in if True \<and> int (length mins) \<noteq> num_modes_fld p then Inl (AssertionFailure, p)
          else if True \<and> int (length maxs) \<noteq> num_modes_fld p then Inl (AssertionFailure, p)
          else if True \<and> int (length cs) \<noteq> num_modes_fld p then Inl (AssertionFailure, p)
          else let p = p\<lparr>tree_fld := tree, constraints_fld := cs\<rparr>
               in and_then (for_loop 0 (num_modes_fld p)
                 (mode_body True dyn tree nts mins maxs options) (0, p))
                 (\<lambda>(counter, p). Inr p)) ?E (?A (length nts))"
      unfolding Let_def p1_def [symmetric] p2_def [symmetric]
      by (auto simp: post_def)
  qed
qed

section \<open>Allocation and seeding\<close>

text \<open>
  The allocation of a mode returns, with blocks of \<open>c * n\<close>, \<open>c * (n - 1)\<close> and
  \<open>c * (n - 1)\<close> new variables, when the sizes are not negative and the products do not
  overflow.  Seeding a block from a trajectory that is not empty stops when the loop
  runs over more knots than the block has room for.
\<close>

lemma init_decision_variables_allocates:
  assumes ci: "elem_at (constraints_fld p) i = Some ci"
    and n: "elem_at num_time_samples i = Some n"
    and oi: "elem_at options i = Some oi"
    and c0: "0 \<le> countConstraints ci" and n1: "1 \<le> n" and n31: "n < 2 ^ 31"
    and cn: "countConstraints ci * n < 2 ^ 31"
    and rel: "0 \<le> getNumRelative oi" and nv: "0 \<le> get_num_velocities (tree_fld p)"
  shows "\<exists>q. init_decision_variables num_time_samples options i p = Inr q
     \<and> force_vars_fld q = force_vars_fld p
         @ [[num_vars p ..< num_vars p + nat (countConstraints ci * n)]]
     \<and> collocation_force_vars_fld q = collocation_force_vars_fld p
         @ [[num_vars p + nat (countConstraints ci * n)
             ..< num_vars p + nat (countConstraints ci * n)
                 + nat (countConstraints ci * (n - 1))]]
     \<and> collocation_slack_vars_fld q = collocation_slack_vars_fld p
         @ [[num_vars p + nat (countConstraints ci * n) + nat (countConstraints ci * (n - 1))
             ..< num_vars p + nat (countConstraints ci * n)
                 + nat (countConstraints ci * (n - 1)) + nat (countConstraints ci * (n - 1))]]
     \<and> num_vars q = num_vars p + nat (countConstraints ci * n)
         + nat (countConstraints ci * (n - 1)) + nat (countConstraints ci * (n - 1))
         + nat (getNumRelative oi) + nat (get_num_velocities (tree_fld p))"
proof -
  let ?c = "countConstraints ci"
  have a: "int32 (?c * n) = ?c * n"
    using c0 n1 cn by (intro int32_id) simp_all
  have m: "int32 (n - 1) = n - 1"
    using n1 n31 by (intro int32_id) simp_all
  have "?c * (n - 1) \<le> ?c * n" using c0 by (intro mult_left_mono) simp_all
  with cn have "?c * (n - 1) < 2 ^ 31" by linarith
  moreover have "0 \<le> ?c * (n - 1)" using c0 n1 by simp
  ultimately have b: "int32 (?c * (n - 1)) = ?c * (n - 1)" by (intro int32_id)
  have a0: "0 \<le> ?c * n" using c0 n1 by simp
  have b0: "0 \<le> ?c * (n - 1)" using c0 n1 by simp
  show ?thesis
    unfolding init_decision_variables_def
    using a0 b0 rel nv
    by (simp add: ci n oi a m b demand_simps and_then_simps NewContinuousVariables_def Let_def)
qed

lemma seed_guess_overrun:
  assumes c: "elem_at (num_kinematic_constraints_fld p) mode = Some c" and c0: "0 < c"
    and over: "int (length v) < c * n"
  shows "seed_guess ar p mode (Some val) n time v = Inl OutOfRange"
proof -
  let ?body = "\<lambda>i g. require (do {
              c \<leftarrow> elem_at (num_kinematic_constraints_fld p) mode;
              assign_segment g (c * i) c (val (time i)) })"
  let ?I = "\<lambda>k g. length g = length v \<and> c * k \<le> int (length v)"
  have n: "0 < n"
  proof (rule ccontr)
    assume "\<not> 0 < n"
    then have "c * n \<le> 0" using c0 by (simp add: mult_le_0_iff)
    with over show False by simp
  qed
  have "case for_loop 0 n ?body v of Inl e \<Rightarrow> e = OutOfRange
        | Inr g \<Rightarrow> ?I (if 0 < n then n else 0) g"
  proof (rule for_loop_rule [where I = ?I])
    show "?I 0 v" by simp
  next
    fix k g g' assume "?I k g" and "?body k g = Inr g'"
    then have a: "assign_segment g (c * k) c (val (time k)) = Some g'"
      by (simp add: c require_def split: option.splits)
    with \<open>?I k g\<close> have "length g' = length v" by (simp add: assign_segment_length)
    moreover from a \<open>?I k g\<close> have "c * (k + 1) \<le> int (length v)"
      by (auto simp: assign_segment_def algebra_simps split: if_splits)
    ultimately show "?I (k + 1) g'" by simp
  next
    fix k g e assume "?body k g = Inl e"
    then show "e = OutOfRange" by (auto simp: require_def split: option.splits)
  qed
  with n over show ?thesis
    by (auto simp: seed_guess_def split: sum.splits)
qed

lemma seed_guess_failure:
  "seed_guess ar p mode traj n time v = Inl e \<Longrightarrow> e = OutOfRange"
proof (cases traj)
  case None
  assume "seed_guess ar p mode traj n time v = Inl e"
  with None show ?thesis by (simp add: seed_guess_def)
next
  case (Some val)
  let ?body = "\<lambda>i g. require (do {
              c \<leftarrow> elem_at (num_kinematic_constraints_fld p) mode;
              assign_segment g (c * i) c (val (time i)) })"
  assume r: "seed_guess ar p mode traj n time v = Inl e"
  have "case for_loop 0 n ?body v of Inl e \<Rightarrow> e = OutOfRange | Inr g \<Rightarrow> True"
  proof (rule for_loop_preserves [where I = "\<lambda>g. True"])
    fix k g e assume "?body k g = Inl e"
    then show "e = OutOfRange" by (auto simp: require_def split: option.splits)
  qed simp_all
  with r Some show ?thesis by (simp add: seed_guess_def)
qed

lemma SetInitialForceTrajectory_failure:
  assumes "SetInitialForceTrajectory ar p tdv fixed_timestep uninitialized mode
             traj_init_l traj_init_lc traj_init_vc guess = Inl e"
  shows "e = OutOfRange"
  using assms
  by (auto simp: SetInitialForceTrajectory_def Let_def and_then_def require_def
      dest!: seed_guess_failure split: if_splits option.splits sum.splits)

lemma SetInitialForceTrajectory_overrun:
  assumes fv: "elem_at (force_vars_fld p) mode = Some fv"
    and c: "elem_at (num_kinematic_constraints_fld p) mode = Some c" and c0: "0 < c"
    and over: "int (length fv) < c * N p"
  shows "SetInitialForceTrajectory ar p tdv fixed_timestep uninitialized mode
           (Some val) traj_init_lc traj_init_vc guess = Inl OutOfRange"
proof -
  have seed: "seed_guess ar p mode (Some val) (N p) time
                (map uninitialized [0 ..< length fv]) = Inl OutOfRange" for time
    by (rule seed_guess_overrun [OF c c0]) (simp add: over)
  show ?thesis
    unfolding SetInitialForceTrajectory_def Let_def
    by (cases "elem_at (h_vars p) 0")
       (simp_all add: fv seed and_then_def require_def)
qed

text \<open>
  What a call of \<open>SetInitialForceTrajectory\<close> that returns has done: with \<open>h\<close> the initial
  guess of the first timestep variable (the fixed timestep when timesteps are not
  decision variables), each group is all zeros when its trajectory is empty and
  otherwise holds, in its segment \<open>i\<close>, the value of its trajectory at \<open>0 + i * h\<close>
  (forces, \<open>i\<close> below \<open>N\<close>) or \<open>0 + (i + 0.5) * h\<close> (collocation forces and slacks, \<open>i\<close> below
  \<open>N - 1\<close>), and when the three groups of variables are distinct every variable ends with
  the guess of its own group.
\<close>

lemma SetInitialForceTrajectory_returns:
  assumes "SetInitialForceTrajectory ar p timesteps_are_decision_variables fixed_timestep
             uninitialized mode traj_init_l traj_init_lc traj_init_vc guess = Inr guess'"
  shows "\<exists>h fv cfv csv gl glc gvc.
      h = (if timesteps_are_decision_variables then guess (h_vars p ! 0) else fixed_timestep)
    \<and> elem_at (force_vars_fld p) mode = Some fv
    \<and> elem_at (collocation_force_vars_fld p) mode = Some cfv
    \<and> elem_at (collocation_slack_vars_fld p) mode = Some csv
    \<and> length gl = length fv \<and> length glc = length cfv \<and> length gvc = length csv
    \<and> sampled (d_zero ar) p mode traj_init_l (N p)
        (\<lambda>i. d_plus ar (d_zero ar) (d_times ar (d_of_int ar i) h)) gl
    \<and> sampled (d_zero ar) p mode traj_init_lc (N p - 1)
        (\<lambda>i. d_plus ar (d_zero ar) (d_times ar (d_plus ar (d_of_int ar i) (d_half ar)) h)) glc
    \<and> sampled (d_zero ar) p mode traj_init_vc (N p - 1)
        (\<lambda>i. d_plus ar (d_zero ar) (d_times ar (d_plus ar (d_of_int ar i) (d_half ar)) h)) gvc
    \<and> guess' = SetInitialGuess csv gvc (SetInitialGuess cfv glc (SetInitialGuess fv gl guess))
    \<and> (distinct (fv @ cfv @ csv) \<longrightarrow>
         (\<forall>n < length fv. guess' (fv ! n) = gl ! n)
       \<and> (\<forall>n < length cfv. guess' (cfv ! n) = glc ! n)
       \<and> (\<forall>n < length csv. guess' (csv ! n) = gvc ! n))"
proof -
  define h where
    "h = (if timesteps_are_decision_variables then guess (h_vars p ! 0) else fixed_timestep)"
  let ?tl = "\<lambda>i. d_plus ar (d_zero ar) (d_times ar (d_of_int ar i) h)"
  let ?tc = "\<lambda>i. d_plus ar (d_zero ar) (d_times ar (d_plus ar (d_of_int ar i) (d_half ar)) h)"
  note defs = SetInitialForceTrajectory_def Let_def and_then_def require_def
  from assms have hh: "(if timesteps_are_decision_variables
                then and_then (require (elem_at (h_vars p) 0)) (\<lambda>h0. Inr (guess h0))
                else Inr fixed_timestep) = (Inr h :: failure + 'a)"
    by (auto simp: defs h_def elem_at_def split: if_splits option.splits sum.splits)
  from assms obtain fv where fv: "elem_at (force_vars_fld p) mode = Some fv"
    by (auto simp: defs split: option.splits sum.splits if_splits)
  from assms hh fv obtain gl where gl: "seed_guess ar p mode traj_init_l (N p) ?tl
      (map uninitialized [0 ..< length fv]) = Inr gl"
    by (auto simp: defs split: option.splits sum.splits)
  from assms hh fv gl obtain cfv where
    cfv: "elem_at (collocation_force_vars_fld p) mode = Some cfv"
    by (auto simp: defs split: option.splits sum.splits)
  from assms hh fv gl cfv obtain glc where glc: "seed_guess ar p mode traj_init_lc (N p - 1)
      ?tc (map uninitialized [0 ..< length cfv]) = Inr glc"
    by (auto simp: defs split: option.splits sum.splits)
  from assms hh fv gl cfv glc obtain csv where
    csv: "elem_at (collocation_slack_vars_fld p) mode = Some csv"
    by (auto simp: defs split: option.splits sum.splits)
  from assms hh fv gl cfv glc csv obtain gvc where gvc: "seed_guess ar p mode traj_init_vc
      (N p - 1) ?tc (map uninitialized [0 ..< length csv]) = Inr gvc"
    by (auto simp: defs split: option.splits sum.splits)
  from assms hh fv gl cfv glc csv gvc have g':
    "guess' = SetInitialGuess csv gvc (SetInitialGuess cfv glc (SetInitialGuess fv gl guess))"
    by (auto simp: defs split: option.splits sum.splits)
  have len: "length gl = length fv" "length glc = length cfv" "length gvc = length csv"
    using seed_guess_length [OF gl] seed_guess_length [OF glc] seed_guess_length [OF gvc]
    by simp_all
  have vals: "(\<forall>n < length fv. guess' (fv ! n) = gl ! n)
       \<and> (\<forall>n < length cfv. guess' (cfv ! n) = glc ! n)
       \<and> (\<forall>n < length csv. guess' (csv ! n) = gvc ! n)"
    if d: "distinct (fv @ cfv @ csv)"
  proof (intro conjI allI impI)
    fix n assume n: "n < length fv"
    then have "fv ! n \<in> set fv" by simp
    with d have "fv ! n \<notin> set cfv" "fv ! n \<notin> set csv" by auto
    with d n len show "guess' (fv ! n) = gl ! n"
      by (simp add: g' SetInitialGuess_other SetInitialGuess_nth)
  next
    fix n assume n: "n < length cfv"
    then have "cfv ! n \<in> set cfv" by simp
    with d have "cfv ! n \<notin> set csv" by auto
    with d n len show "guess' (cfv ! n) = glc ! n"
      by (simp add: g' SetInitialGuess_other SetInitialGuess_nth)
  next
    fix n assume n: "n < length csv"
    with d len show "guess' (csv ! n) = gvc ! n"
      by (simp add: g' SetInitialGuess_nth)
  qed
  from fv cfv csv len g' vals
    seed_guess_sampled [OF gl] seed_guess_sampled [OF glc] seed_guess_sampled [OF gvc]
  show ?thesis unfolding h_def by blast
qed

section \<open>The example transcription, evaluated\<close>

lemmas run_defs = HybridDircon_def MultipleShooting_def mode_body_def
  set_timestep_bounds_def init_decision_variables_def add_dynamic_constraints_def
  add_kinematic_constraints_def add_force_constraints_def add_force_cost_def
  dynamic_constraint_vars_def kinematic_constraint_vars_def state_vars_by_mode_def
  v_post_impact_vars_by_mode_def comma_initializer_def int32_def
  force_def force_vars_def collocation_force_vars_def
  collocation_slack_vars_def offset_vars_def num_kinematic_constraints_def timestep_def
  state_def input_def segment_def elem_at_def and_then_def demand_def
  NewContinuousVariables_def AddConstraint_def AddCost_def getNumConstraintObjects_def
  getConstraint_def DirconDynamicConstraint_num_constraints_def for_loop.simps upt_rec

lemmas ex_defs = ex_tree_def ex_set_def ex_options_def

lemma ex_run_eval: "ex_run = Inl (OutOfRange, ex_stopped)"
  by (simp add: ex_run_def ex_stopped_def ex_defs run_defs)

lemma ex_run_outcome: "outcome ex_run = ex_stopped"
  by (simp add: ex_run_eval outcome_def)

lemma ex_run_unordered_eval:
  "ex_run_unordered = Inl (OutOfRange, ex_stopped
     \<lparr>added_constraints :=
        [BoundingBoxConstraint (1 / 10 ^ 8) (10 ^ 8) [0, 1, 2, 3, 4],
         BoundingBoxConstraint 3 1 [0], BoundingBoxConstraint 3 1 [1],
         BoundingBoxConstraint 3 1 [2],
         LinearConstraintEq [0] [1], LinearConstraintEq [1] [2]]\<rparr>)"
  by (simp add: ex_run_unordered_def ex_stopped_def ex_defs run_defs)

lemma ex_base_eval: "MultipleShooting 2 2 6 (1 / 10 ^ 8) (10 ^ 8) ex_tree = Inr ex_base"
  by (simp add: ex_base_def run_defs)

lemma ex_three_knots_eval:
  "MultipleShooting 2 2 3 (1 / 10 ^ 8) (10 ^ 8) ex_tree = Inr ex_three_knots"
  by (simp add: ex_three_knots_def run_defs)

lemma ex_run_short_eval:
  "ex_run_short = Inl (AssertionFailure, ex_base\<lparr>num_modes_fld := 2, mode_lengths_fld := [3, 3]\<rparr>)"
  by (simp add: ex_run_short_def ex_base_def ex_defs run_defs)

lemma ex_run_short_disarmed_eval: "ex_run_short_disarmed = Inl (OutOfRange, ex_stopped)"
  by (simp add: ex_run_short_disarmed_def ex_stopped_def ex_defs run_defs)

lemma ex_run_single_eval: "ex_run_single = Inl (OutOfRange, ex_stopped_single)"
  by (simp add: ex_run_single_def ex_stopped_single_def ex_three_knots_def ex_defs run_defs)

lemma ex_run3_eval:
  "failure_of (ex_run3 True) = Some AssertionFailure
   \<and> failure_of (ex_run3 False) = Some OutOfRange
   \<and> num_states (outcome (ex_run3 True)) = 3
   \<and> num_states (outcome (ex_run3 False)) = 3
   \<and> offset_vars_fld (outcome (ex_run3 True)) = [[56]]
   \<and> offset_vars_fld (outcome (ex_run3 False)) = [[56]]
   \<and> outcome (ex_run3 True) = outcome (ex_run3 False)"
  by (simp add: ex_run3_def ex_tree3_def ex_defs failure_of_def outcome_def run_defs)

text \<open>
  The sections of the constructor that the construction of the example does not reach,
  run on the object at which it stops: the timestep bounds of the second mode, and the
  force constraints of the first.  Then, on the object of two modes, what is read for
  the first knot of the second mode: the post-impact velocities, the positions, and the
  input of the constraint of the start type.
\<close>

lemma set_timestep_bounds_second_mode:
  "set_timestep_bounds [1, 2] [3, 4] 1 ex_stopped
   = Inr (ex_stopped\<lparr>added_constraints := added_constraints ex_stopped @
        [BoundingBoxConstraint 2 4 [0], BoundingBoxConstraint 2 4 [1],
         BoundingBoxConstraint 2 4 [2],
         LinearConstraintEq [0] [1], LinearConstraintEq [1] [2]]\<rparr>)"
  by (simp add: ex_stopped_def run_defs)

lemma add_force_constraints_first_mode:
  "add_force_constraints 0 ex_stopped
   = Inr (ex_stopped\<lparr>added_constraints := added_constraints ex_stopped @
        [Binding (ForceConstraint 0 0 0) [[30]],
         Binding (ForceConstraint 0 1 0) [[32, 33]],
         Binding (ForceConstraint 0 0 0) [[33]],
         Binding (ForceConstraint 0 1 0) [[35, 36]]]\<rparr>)
   \<and> force ex_stopped 0 0 = Some [29, 30, 31]
   \<and> force ex_stopped 0 1 = Some [32, 33, 34]
   \<and> force ex_stopped 0 2 = Some [35, 36, 37]"
  by (simp add: ex_stopped_def ex_defs run_defs)

lemma post_impact_second_mode:
  "v_post_impact_vars_fld ex_program = [74]
   \<and> v_post_impact_vars_by_mode ex_program 1 = None
   \<and> elem_at (mode_start_fld ex_program) 1 = Some 3
   \<and> segment (x_vars ex_program) (3 + 0) (get_num_positions (tree_fld ex_program)) = Some [8]
   \<and> state ex_program 3 = Some [11, 12]"
  by (simp add: ex_program_def ex_stopped_def ex_defs v_post_impact_vars_by_mode_def
      state_def segment_def elem_at_def)

lemma start_input_second_mode:
  "elem_at (mode_start_fld ex_program) 1 = Some 3
   \<and> segment (u_vars ex_program) 3 (num_inputs ex_program) = Some [20, 21]
   \<and> input ex_program 3 = Some [23, 24]
   \<and> input ex_program 1 = Some [19, 20] \<and> input ex_program 2 = Some [21, 22]"
  by (simp add: ex_program_def ex_stopped_def input_def segment_def elem_at_def)

lemma ex_three_knots_cost:
  "total_running_cost (\<lambda>k. 1) (\<lambda>v. 1) (outcome (DoAddRunningCost ex_three_knots)) = 1 / 2"
proof -
  have a: "2 \<le> N ex_three_knots"
    and b: "int (length (h_vars ex_three_knots)) = N ex_three_knots - 1"
    by (simp_all add: ex_three_knots_def)
  from DoAddRunningCost_total [OF a b, of "\<lambda>k. 1" "\<lambda>v. 1"]
  show ?thesis
    by (auto simp: outcome_def total_running_cost_def ex_three_knots_def)
qed

text \<open>
  Seeding an object of a single mode: the loops of \<open>SetInitialForceTrajectory\<close> then run
  over the knots of that mode, and the call returns.
\<close>

lemma SetInitialForceTrajectory_single_mode:
  "SetInitialForceTrajectory real_arithmetic ex_single True 0 (\<lambda>n. 7) 0
     (Some (\<lambda>t. [t, 2 * t])) (Some (\<lambda>t. [t, t])) None (\<lambda>v. 1 / 2)
   = Inr (SetInitialGuess [24, 25, 26, 27] [0, 0, 0, 0]
           (SetInitialGuess [20, 21, 22, 23] [1 / 4, 1 / 4, 3 / 4, 3 / 4]
             (SetInitialGuess [14, 15, 16, 17, 18, 19] [0, 0, 1 / 2, 1, 1, 2] (\<lambda>v. 1 / 2))))"
  by (simp add: SetInitialForceTrajectory_def ex_single_def ex_three_knots_def
      real_arithmetic_def seed_guess_def for_loop.simps and_then_def require_def elem_at_def
      assign_segment_def upt_rec)

text \<open>
  A product of row count and number of knots that overflows: with \<open>2\<^sup>3\<^sup>0\<close> rows and four
  knots the size of the block of force variables wraps to \<open>0\<close>, no force variable is
  allocated, and the size of the next block is negative.
\<close>

lemma init_decision_variables_overflow:
  "init_decision_variables [4] [ex_options] 0
     (ex_base\<lparr>constraints_fld := [\<lparr>countConstraints = 2 ^ 30, constraint_objects = []\<rparr>]\<rparr>)
   = Inl (BadSize,
          ex_base\<lparr>constraints_fld := [\<lparr>countConstraints = 2 ^ 30, constraint_objects = []\<rparr>],
                  force_vars_fld := [[]]\<rparr>)"
  by (simp add: ex_base_def run_defs)


section \<open>The claims\<close>

text \<open>
  C1.  Claimed: every mode after the first gets a post-impact-velocity block of its
  own; the state of knot 0 of such a mode is the knot's positions followed by that
  block; the state of any other knot is the knot's block of the state vector.  In the
  code \<open>state_vars_by_mode\<close> writes the blocks into a vector that has no rows, and this
  fails whenever the transcription has a state (lemma \<open>state_vars_by_mode_stops\<close>).  The
  construction of the example stops in the first mode, where the variables of the first
  dynamic constraint are collected: by then the six constraints on the timesteps are
  added and the variables of the first mode are allocated, a block of post-impact
  velocities (\<open>[51]\<close>) among them.  On the object it has reached the state of no knot
  resolves, where the blocks of knots 0 and 1 in the state vector are \<open>[5, 6]\<close> and
  \<open>[7, 8]\<close>.
\<close>

theorem C1_state_vars_by_mode_example:
  "failure_of ex_run = Some OutOfRange
   \<and> mode_start_fld (outcome ex_run) = [0]
   \<and> length (added_constraints (outcome ex_run)) = 6
   \<and> dynamic_constraint_vars (outcome ex_run) 0 0 = None
   \<and> segment (h_vars (outcome ex_run)) 0 1 = Some [0]
   \<and> state_vars_by_mode (outcome ex_run) 0 0 = None
   \<and> state_vars_by_mode (outcome ex_run) 0 1 = None
   \<and> state (outcome ex_run) 0 = Some [5, 6]
   \<and> state (outcome ex_run) 1 = Some [7, 8]
   \<and> v_post_impact_vars_fld (outcome ex_run) = [51]"
  by (simp add: ex_run_eval failure_of_def outcome_def ex_stopped_def ex_defs
      dynamic_constraint_vars_def state_vars_by_mode_def comma_initializer_def state_def
      segment_def elem_at_def)

text \<open>
  C2.  Claimed: the timesteps of every mode are bounded by that mode's minimum and
  maximum and are pinned equal to each other.  With a single mode of three knots the
  construction stops in the loop that adds the bounds: it runs over the three knots of
  the mode, and there are two timesteps; two bounds are added and no equality.  With
  two modes of three knots the bounds and equalities of the first mode are added, on
  the timesteps 0, 1 and 2, and nothing for the second mode: the construction stops in
  the first (see C1).
\<close>

theorem C2_timestep_constraints_example:
  "failure_of ex_run_single = Some OutOfRange
   \<and> h_vars (outcome ex_run_single) = [0, 1]
   \<and> mode_lengths_fld (outcome ex_run_single) = [3]
   \<and> timestep (outcome ex_run_single) 2 = None
   \<and> added_constraints (outcome ex_run_single) =
       [BoundingBoxConstraint (1 / 10 ^ 8) (10 ^ 8) [0, 1],
        BoundingBoxConstraint 1 3 [0], BoundingBoxConstraint 1 3 [1]]
   \<and> failure_of ex_run = Some OutOfRange
   \<and> h_vars (outcome ex_run) = [0, 1, 2, 3, 4]
   \<and> mode_lengths_fld (outcome ex_run) = [3, 3]
   \<and> mode_start_fld (outcome ex_run) = [0]
   \<and> added_constraints (outcome ex_run) =
       [BoundingBoxConstraint (1 / 10 ^ 8) (10 ^ 8) [0, 1, 2, 3, 4],
        BoundingBoxConstraint 1 3 [0], BoundingBoxConstraint 1 3 [1],
        BoundingBoxConstraint 1 3 [2],
        LinearConstraintEq [0] [1], LinearConstraintEq [1] [2]]"
  by (simp add: ex_run_eval ex_run_single_eval failure_of_def outcome_def ex_stopped_def
      ex_stopped_single_def ex_three_knots_def timestep_def segment_def)

text \<open>
  C3.  Claimed: the costs added by \<open>DoAddRunningCost\<close> sum to the trapezoidal integral
  of the running cost.  With three knots, a running cost of \<open>1\<close> at every knot and both
  timesteps equal to \<open>1\<close>, the integral is \<open>2\<close> and the costs added sum to \<open>1/2\<close>: the
  first and the last cost are halved twice and the loop stops before knot \<open>N - 2\<close>
  (lemma \<open>DoAddRunningCost_total\<close> gives the sum for any number of knots).
\<close>

theorem C3_running_cost_example:
  "costs (outcome (DoAddRunningCost ex_three_knots))
     = [RunningCost (1 / 4) 0 [0], RunningCost (1 / 4) 2 [1]]
   \<and> total_running_cost (\<lambda>k. 1) (\<lambda>v. 1) (outcome (DoAddRunningCost ex_three_knots)) = 1 / 2
   \<and> trapezoid (\<lambda>k. 1) (\<lambda>v. 1) ex_three_knots = 2"
  by (simp add: DoAddRunningCost_def ex_three_knots_def outcome_def and_then_def demand_def
      elem_at_def AddCost_def for_loop.simps total_running_cost_def running_cost_value_def
      trapezoid_def)

text \<open>
  C4.  Claimed: at every knot of a mode, the force constraints of every constraint
  object are added over that object's rows of the knot's force block.  In the example
  both constraint objects of the first mode have a force constraint and the three knots
  of the mode have their force blocks, and no force constraint is added: the
  construction stops before it reaches the loop that adds them (see C1).
\<close>

theorem C4_force_constraints_example:
  "failure_of ex_run = Some OutOfRange
   \<and> filter is_force_constraint (added_constraints (outcome ex_run)) = []
   \<and> map numForceConstraints (constraint_objects (constraints_fld (outcome ex_run) ! 0))
       = [1, 1]
   \<and> force (outcome ex_run) 0 0 = Some [29, 30, 31]
   \<and> force (outcome ex_run) 0 1 = Some [32, 33, 34]
   \<and> force (outcome ex_run) 0 2 = Some [35, 36, 37]"
  by (simp add: ex_run_eval failure_of_def outcome_def ex_stopped_def ex_defs
      is_force_constraint_def force_def force_vars_def num_kinematic_constraints_def
      segment_def elem_at_def)

text \<open>
  C5.  Claimed: construction checks that the vectors of minimum timesteps, maximum
  timesteps and constraint sets have one entry for each mode and that no minimum
  timestep exceeds its maximum, and fails before any decision variable is allocated
  otherwise.  With each minimum above its maximum the construction of the example,
  assertions compiled in, goes the way it goes with the bounds in order: it adds the
  bounds, with the lower above the upper, allocates the variables of the first mode, and
  stops where the other stops, at the same object but for the bounds.  With a vector of
  minimum timesteps that is too short it stops at the assertion, when the 29 variables of
  the base class are allocated; with assertions compiled out it does not stop there, and
  allocates the variables of the first mode.
\<close>

theorem C5_validation_counterexample:
  "failure_of ex_run_unordered = Some OutOfRange
   \<and> failure_of ex_run = Some OutOfRange
   \<and> num_vars (outcome ex_run_unordered) = 52
   \<and> take 4 (added_constraints (outcome ex_run_unordered)) =
       [BoundingBoxConstraint (1 / 10 ^ 8) (10 ^ 8) [0, 1, 2, 3, 4],
        BoundingBoxConstraint 3 1 [0], BoundingBoxConstraint 3 1 [1],
        BoundingBoxConstraint 3 1 [2]]
   \<and> (outcome ex_run_unordered)\<lparr>added_constraints := []\<rparr>
       = (outcome ex_run)\<lparr>added_constraints := []\<rparr>
   \<and> failure_of ex_run_short = Some AssertionFailure
   \<and> num_vars (outcome ex_run_short) = 29
   \<and> failure_of ex_run_short_disarmed = Some OutOfRange
   \<and> num_vars (outcome ex_run_short_disarmed) = 52"
  by (simp add: ex_run_eval ex_run_unordered_eval ex_run_short_eval
      ex_run_short_disarmed_eval failure_of_def outcome_def ex_stopped_def ex_base_def)

text \<open>
  C5, as the code has it.  When assertions are compiled in and the base class has been
  constructed, a vector of minimum timesteps, of maximum timesteps or of constraint sets
  whose length is not the number of modes makes the construction stop at the assertion:
  the object is then as the base class left it, with the number of modes and the mode
  lengths set, no force, collocation, offset or post-impact variable allocated and no
  constraint added but the bound of the base class.
\<close>

theorem C5_length_assertions:
  fixes options :: "'ty DirconOptions list" and p0 :: "'ty program"
  assumes "MultipleShooting (get_num_actuators tree)
             (int32 (get_num_positions tree + get_num_velocities tree))
             (int32 (sum_list num_time_samples)) (1 / 10 ^ 8) (10 ^ 8) tree = Inr p0"
    and "length minimum_timestep \<noteq> length num_time_samples
         \<or> length maximum_timestep \<noteq> length num_time_samples
         \<or> length constraints \<noteq> length num_time_samples"
  shows "HybridDircon True dynamic_rows tree num_time_samples minimum_timestep
           maximum_timestep constraints options
         = Inl (AssertionFailure,
                p0\<lparr>num_modes_fld := int (length num_time_samples),
                   mode_lengths_fld := num_time_samples\<rparr>)
       \<and> force_vars_fld p0 = [] \<and> collocation_force_vars_fld p0 = []
       \<and> collocation_slack_vars_fld p0 = [] \<and> offset_vars_fld p0 = []
       \<and> v_post_impact_vars_fld p0 = []
       \<and> added_constraints p0 = [BoundingBoxConstraint (1 / 10 ^ 8) (10 ^ 8) (h_vars p0)]"
proof -
  from assms(1) have
    "force_vars_fld p0 = [] \<and> collocation_force_vars_fld p0 = []
     \<and> collocation_slack_vars_fld p0 = [] \<and> offset_vars_fld p0 = []
     \<and> v_post_impact_vars_fld p0 = []
     \<and> added_constraints p0 = [BoundingBoxConstraint (1 / 10 ^ 8) (10 ^ 8) (h_vars p0)]"
    by (auto simp: MultipleShooting_def and_then_def NewContinuousVariables_def
        AddConstraint_def split: if_splits)
  moreover from assms have
    "HybridDircon True dynamic_rows tree num_time_samples minimum_timestep
           maximum_timestep constraints options
         = Inl (AssertionFailure,
                p0\<lparr>num_modes_fld := int (length num_time_samples),
                   mode_lengths_fld := num_time_samples\<rparr>)"
    by (auto simp: HybridDircon_def and_then_def Let_def)
  ultimately show ?thesis by simp
qed

theorem C5_length_assertions_witness:
  "MultipleShooting (get_num_actuators ex_tree)
     (int32 (get_num_positions ex_tree + get_num_velocities ex_tree))
     (int32 (sum_list [3, 3])) (1 / 10 ^ 8) (10 ^ 8) ex_tree = Inr ex_base
   \<and> length [1 :: real] \<noteq> length [3 :: int, 3]
   \<and> HybridDircon True DirconDynamicConstraint_num_constraints ex_tree [3, 3] [1] [3, 4]
        [ex_set, ex_set] [ex_options, ex_options]
      = Inl (AssertionFailure, ex_base\<lparr>num_modes_fld := 2, mode_lengths_fld := [3, 3]\<rparr>)
   \<and> force_vars_fld ex_base = [] \<and> offset_vars_fld ex_base = []
   \<and> added_constraints ex_base = [BoundingBoxConstraint (1 / 10 ^ 8) (10 ^ 8) [0, 1, 2, 3, 4]]"
proof -
  have base: "MultipleShooting (get_num_actuators ex_tree)
     (int32 (get_num_positions ex_tree + get_num_velocities ex_tree))
     (int32 (sum_list [3, 3])) (1 / 10 ^ 8) (10 ^ 8) ex_tree = Inr ex_base"
    using ex_base_eval by (simp add: ex_tree_def int32_def)
  have len: "length [1 :: real] \<noteq> length [3 :: int, 3]
         \<or> length [3 :: real, 4] \<noteq> length [3 :: int, 3]
         \<or> length [ex_set, ex_set] \<noteq> length [3 :: int, 3]"
    by simp
  from C5_length_assertions [OF base len,
      of DirconDynamicConstraint_num_constraints "[ex_options, ex_options]"] base
  show ?thesis by (simp add: ex_base_def)
qed


text \<open>
  C7.  Claimed: the interior kinematic constraint is added at each of the knots
  \<open>1 .. N - 2\<close> of a mode, the constraint of the start type at knot 0 and the constraint
  of the end type at knot \<open>N - 1\<close>, each over the state, the input and the force block of
  its knot and the offset variables of the mode.  In the example no kinematic
  constraint is added: the construction stops before it reaches them (see C1), and at
  none of the three knots of the first mode can the four blocks be collected, because
  the state does not resolve, while the input, the force block and the offset variables
  are there.
\<close>

theorem C7_kinematic_constraints_example:
  "failure_of ex_run = Some OutOfRange
   \<and> filter is_kinematic_constraint (added_constraints (outcome ex_run)) = []
   \<and> kinematic_constraint_vars (outcome ex_run) 0 0 0 = None
   \<and> kinematic_constraint_vars (outcome ex_run) 0 1 2 = None
   \<and> kinematic_constraint_vars (outcome ex_run) 0 2 4 = None
   \<and> input (outcome ex_run) 0 = Some [17, 18]
   \<and> input (outcome ex_run) 1 = Some [19, 20]
   \<and> input (outcome ex_run) 2 = Some [21, 22]
   \<and> force (outcome ex_run) 0 1 = Some [32, 33, 34]
   \<and> offset_vars (outcome ex_run) 0 = Some [50]"
  by (simp add: ex_run_eval failure_of_def outcome_def ex_stopped_def ex_defs
      is_kinematic_constraint_def kinematic_constraint_vars_def state_vars_by_mode_def
      comma_initializer_def input_def force_def force_vars_def offset_vars_def
      num_kinematic_constraints_def segment_def elem_at_def)

text \<open>
  C8.  Claimed: the dynamic constraint of every mode has dimension \<open>2 * n_v\<close>, and this
  is the combined state dimension, checked at construction.  For a tree with two
  positions and one velocity the dimension the specification gives is \<open>2\<close> and the
  state dimension is \<open>3\<close>.  With assertions compiled in the construction stops at the
  assertion in the first mode; with assertions compiled out it goes on from the same
  object and stops later, where the variables of the first dynamic constraint are
  collected.
\<close>

theorem C8_unchecked_counterexample:
  "DirconDynamicConstraint_num_constraints ex_tree3 ex_set = 2
   \<and> get_num_positions ex_tree3 + get_num_velocities ex_tree3 = 3
   \<and> num_states (outcome (ex_run3 False)) = 3
   \<and> failure_of (ex_run3 False) = Some OutOfRange
   \<and> offset_vars_fld (outcome (ex_run3 False)) = [[56]]
   \<and> failure_of (ex_run3 True) = Some AssertionFailure
   \<and> outcome (ex_run3 True) = outcome (ex_run3 False)"
  using ex_run3_eval
  by (simp add: DirconDynamicConstraint_num_constraints_def ex_tree3_def)

text \<open>
  C8, as the code has it.  With assertions compiled in, and for a tree whose number of
  velocities is not negative: every mode whose variables the constructor has allocated
  has a \<open>DirconDynamicConstraint\<close> with as many rows as the object has states
  (\<open>num_states()\<close>, the number of positions plus the number of velocities), unless the
  construction has stopped at the assertion; then the mode allocated last, and no other,
  has a different number of rows.
\<close>

theorem C8_dimension_check:
  fixes options :: "'ty DirconOptions list" and r :: "('ty, 'ty program) run"
  assumes "0 \<le> get_num_velocities tree"
    and "r = HybridDircon True dynamic_rows tree num_time_samples minimum_timestep
               maximum_timestep constraints options"
    and "i < length (offset_vars_fld (outcome r))"
  shows "i < length constraints
       \<and> (dynamic_rows tree (constraints ! i) \<noteq> num_states (outcome r)
          \<longleftrightarrow> failure_of r = Some AssertionFailure
              \<and> Suc i = length (offset_vars_fld (outcome r)))"
proof (cases r)
  case (Inr q)
  let ?ns = "int32 (get_num_positions tree + get_num_velocities tree)"
  from Inr assms(2) have "HybridDircon True dynamic_rows tree num_time_samples
      minimum_timestep maximum_timestep constraints options = Inr q" by simp
  with HybridDircon_checked [OF assms(1), of dynamic_rows num_time_samples minimum_timestep
      maximum_timestep constraints options]
  have "at_mode dynamic_rows tree constraints ?ns (length num_time_samples) q"
    by (simp add: post_def)
  with assms(3) Inr show ?thesis
    by (auto simp: at_mode_def checked_def outcome_def failure_of_def)
next
  case (Inl e)
  let ?ns = "int32 (get_num_positions tree + get_num_velocities tree)"
  obtain f q where e: "e = (f, q)" by (cases e)
  with Inl assms(2) have "HybridDircon True dynamic_rows tree num_time_samples
      minimum_timestep maximum_timestep constraints options = Inl (f, q)" by simp
  with HybridDircon_checked [OF assms(1), of dynamic_rows num_time_samples
      minimum_timestep maximum_timestep constraints options]
  have st: "stopped dynamic_rows tree constraints ?ns f q"
    by (simp add: post_def)
  then have ns: "num_states q = ?ns" by (simp add: stopped_def)
  from assms(3) Inl e have i: "i < length (offset_vars_fld q)"
    by (simp add: outcome_def)
  show ?thesis
  proof (cases "f = AssertionFailure")
    case False
    with st i Inl e show ?thesis
      by (auto simp: stopped_def checked_def outcome_def failure_of_def)
  next
    case True
    with st i obtain k where k: "length (offset_vars_fld q) = Suc k"
      "checked dynamic_rows tree constraints ?ns k" "k < length constraints"
      "dynamic_rows tree (constraints ! k) \<noteq> ?ns"
      by (auto simp: stopped_def)
    show ?thesis
    proof (cases "i = k")
      case True
      with k ns \<open>f = AssertionFailure\<close> Inl e show ?thesis
        by (simp add: outcome_def failure_of_def)
    next
      case False
      with i k have "i < k" by simp
      with k ns False Inl e show ?thesis
        by (auto simp: checked_def outcome_def failure_of_def)
    qed
  qed
qed

theorem C8_dimension_check_witness:
  "0 \<le> get_num_velocities ex_tree3
   \<and> (0 :: nat) < length (offset_vars_fld (outcome (ex_run3 True)))
   \<and> DirconDynamicConstraint_num_constraints ex_tree3 ([ex_set, ex_set] ! 0) = 2
   \<and> num_states (outcome (ex_run3 True)) = 3
   \<and> failure_of (ex_run3 True) = Some AssertionFailure
   \<and> Suc 0 = length (offset_vars_fld (outcome (ex_run3 True)))
   \<and> 0 \<le> get_num_velocities ex_tree
   \<and> (0 :: nat) < length (offset_vars_fld (outcome ex_run))
   \<and> failure_of ex_run = Some OutOfRange
   \<and> DirconDynamicConstraint_num_constraints ex_tree ([ex_set, ex_set] ! 0)
       = num_states (outcome ex_run)"
proof -
  have nv3: "0 \<le> get_num_velocities ex_tree3" by (simp add: ex_tree3_def)
  have len3: "(0 :: nat) < length (offset_vars_fld (outcome (ex_run3 True)))"
    using ex_run3_eval by simp
  have rows3: "DirconDynamicConstraint_num_constraints ex_tree3 ([ex_set, ex_set] ! 0) = 2"
    by (simp add: DirconDynamicConstraint_num_constraints_def ex_tree3_def)
  have ns3: "num_states (outcome (ex_run3 True)) = 3"
    using ex_run3_eval by simp
  from C8_dimension_check [OF nv3 _ len3, of DirconDynamicConstraint_num_constraints
      "[3, 3]" "[1, 2]" "[3, 4]" "[ex_set, ex_set]" "[ex_options, ex_options]"] rows3 ns3
  have stop3: "failure_of (ex_run3 True) = Some AssertionFailure
    \<and> Suc 0 = length (offset_vars_fld (outcome (ex_run3 True)))"
    by (simp add: ex_run3_def)
  have nv: "0 \<le> get_num_velocities ex_tree" by (simp add: ex_tree_def)
  have len: "(0 :: nat) < length (offset_vars_fld (outcome ex_run))"
    by (simp add: ex_run_outcome ex_stopped_def)
  have other: "failure_of ex_run = Some OutOfRange"
    by (simp add: ex_run_eval failure_of_def)
  from C8_dimension_check [OF nv _ len, of DirconDynamicConstraint_num_constraints
      "[3, 3]" "[1, 2]" "[3, 4]" "[ex_set, ex_set]" "[ex_options, ex_options]"] other
  have rows: "DirconDynamicConstraint_num_constraints ex_tree ([ex_set, ex_set] ! 0)
       = num_states (outcome ex_run)"
    by (simp add: ex_run_def)
  from nv3 len3 rows3 ns3 stop3 nv len other rows show ?thesis by simp
qed

text \<open>
  C9.  For an object whose mode table is complete and whose knots all have a state,
  an input and a force block: \<open>ReconstructStateTrajectory\<close> returns the piecewise cubic
  that the trajectory library builds from the sample times, the solved state of every
  knot, and, for every knot in the order of the modes, the derivative the constrained
  dynamics of the knot's mode gives at the knot's solved state, input and force, with
  derivative tracking discarded; \<open>ReconstructInputTrajectory\<close> returns the first-order
  hold the library builds from the sample times and the solved input of every knot.
\<close>

theorem C9_reconstructed_trajectories:
  fixes p :: "'ty program" and caches :: "'d list" and m0 :: 'v and t0 :: 't
  assumes "reconstructible p sample_times caches"
  shows "map_sum (\<lambda>f. f) fst
           (ReconstructStateTrajectory p sample_times GetSolution XDot DiscardGradient
              Cubic t0 m0 caches)
         = Inr (Cubic sample_times
                 (map (\<lambda>k. GetSolution (the (state p (int k)))) [0 ..< nat (N p)])
                 (concat (map (\<lambda>i. map (\<lambda>j. knot_derivative p GetSolution XDot
                                              DiscardGradient (int i) (int j))
                                   [0 ..< nat (mode_lengths_fld p ! i)])
                           [0 ..< length (mode_lengths_fld p)])))
       \<and> ReconstructInputTrajectory p sample_times GetSolution FirstOrderHold t0 m0
         = Inr (FirstOrderHold sample_times
                 (map (\<lambda>k. GetSolution (the (input p (int k)))) [0 ..< nat (N p)]))"
proof (rule conjI)
  show "map_sum (\<lambda>f. f) fst
           (ReconstructStateTrajectory p sample_times GetSolution XDot DiscardGradient
              Cubic t0 m0 caches)
         = Inr (Cubic sample_times
                 (map (\<lambda>k. GetSolution (the (state p (int k)))) [0 ..< nat (N p)])
                 (concat (map (\<lambda>i. map (\<lambda>j. knot_derivative p GetSolution XDot
                                              DiscardGradient (int i) (int j))
                                   [0 ..< nat (mode_lengths_fld p ! i)])
                           [0 ..< length (mode_lengths_fld p)])))"
    by (rule ReconstructStateTrajectory_result [OF assms])
next
  show "ReconstructInputTrajectory p sample_times GetSolution FirstOrderHold t0 m0
         = Inr (FirstOrderHold sample_times
                 (map (\<lambda>k. GetSolution (the (input p (int k)))) [0 ..< nat (N p)]))"
    by (rule ReconstructInputTrajectory_result [OF assms])
qed

theorem C9_reconstructed_trajectories_witness:
  "reconstructible ex_program [0, 1, 2, 3, 4, 5 :: nat] [[], [] :: nat list]
   \<and> map_sum (\<lambda>f. f) fst
       (ReconstructStateTrajectory ex_program [0, 1, 2, 3, 4, 5 :: nat] (\<lambda>vs. vs)
          (\<lambda>i x u l. x @ u @ l) (\<lambda>d. d) (\<lambda>ts xs ds. (ts, xs, ds)) 0 [] [[], []])
     = Inr ([0, 1, 2, 3, 4, 5],
            [[5, 6], [7, 8], [9, 10], [11, 12], [13, 14], [15, 16]],
            [[5, 6, 17, 18, 29, 30, 31], [7, 8, 19, 20, 32, 33, 34],
             [9, 10, 21, 22, 35, 36, 37], [11, 12, 23, 24, 52, 53, 54],
             [13, 14, 25, 26, 55, 56, 57], [15, 16, 27, 28, 58, 59, 60]])
   \<and> ReconstructInputTrajectory ex_program [0, 1, 2, 3, 4, 5 :: nat] (\<lambda>vs. vs)
       (\<lambda>ts us. (ts, us)) 0 []
     = Inr ([0, 1, 2, 3, 4, 5],
            [[17, 18], [19, 20], [21, 22], [23, 24], [25, 26], [27, 28]])"
proof -
  have force: "force ex_program (int i) j \<noteq> None"
    if "i < 2" "0 \<le> j" "j < [3, 3] ! i" for i j
  proof -
    from that(1) have "i = 0 \<or> i = 1" by auto
    with that show ?thesis
      by (auto simp: ex_program_def ex_stopped_def force_def force_vars_def num_kinematic_constraints_def
          segment_def elem_at_def)
  qed
  have w: "reconstructible ex_program [0, 1, 2, 3, 4, 5 :: nat] [[], [] :: nat list]"
    unfolding reconstructible_def
  proof (intro conjI allI impI ballI)
    fix i j assume "i < length (mode_lengths_fld ex_program)"
      "0 \<le> j \<and> j < mode_lengths_fld ex_program ! i"
    then show "force ex_program (int i) j \<noteq> None"
      using force [of i j] by (simp add: ex_program_def ex_stopped_def)
  qed (auto simp: ex_program_def ex_stopped_def state_def input_def segment_def upt_rec)
  from C9_reconstructed_trajectories [OF w, of "\<lambda>vs. vs" "\<lambda>i x u l. x @ u @ l" "\<lambda>d. d"
      "\<lambda>ts xs ds. (ts, xs, ds)" 0 "[]" "\<lambda>ts us. (ts, us)"] w
  show ?thesis
    by (simp add: ex_program_def ex_stopped_def knot_derivative_def state_def input_def force_def
        force_vars_def num_kinematic_constraints_def segment_def elem_at_def upt_rec)
qed

text \<open>
  C10.  Claimed: each of the three groups is seeded from its own trajectory, with zeros
  when the trajectory is empty and otherwise with the value of the trajectory at the
  times \<open>i * h\<close> (forces) or \<open>(i + 0.5) * h\<close> (collocation forces and slacks), whatever the
  mode.  On the object with two modes of three knots, seeding the force variables of
  either mode from a trajectory that is not empty stops out of range, whatever the
  trajectory, the timestep and the arithmetic: the loop runs over the six knots of the
  whole transcription, and the vector it fills has the rows of the three knots of the
  mode.  So does seeding the collocation forces.
\<close>

theorem C10_seeding_example:
  "SetInitialForceTrajectory ar ex_program timesteps_are_decision_variables fixed_timestep
     uninitialized 0 (Some val) traj_init_lc traj_init_vc guess = Inl OutOfRange
   \<and> SetInitialForceTrajectory ar ex_program timesteps_are_decision_variables fixed_timestep
       uninitialized 1 (Some val) traj_init_lc traj_init_vc guess = Inl OutOfRange
   \<and> SetInitialForceTrajectory ar ex_program timesteps_are_decision_variables fixed_timestep
       uninitialized 0 None (Some val) traj_init_vc guess = Inl OutOfRange
   \<and> N ex_program = 6 \<and> mode_lengths_fld ex_program = [3, 3]
   \<and> num_kinematic_constraints_fld ex_program = [3, 3]
   \<and> map length (force_vars_fld ex_program) = [9, 9]
   \<and> map length (collocation_force_vars_fld ex_program) = [6, 6]"
proof -
  have a: "SetInitialForceTrajectory ar ex_program timesteps_are_decision_variables
      fixed_timestep uninitialized 0 (Some val) traj_init_lc traj_init_vc guess
      = Inl OutOfRange"
    by (rule SetInitialForceTrajectory_overrun
        [where fv = "[29, 30, 31, 32, 33, 34, 35, 36, 37]" and c = 3])
       (simp_all add: ex_program_def ex_stopped_def elem_at_def)
  have b: "SetInitialForceTrajectory ar ex_program timesteps_are_decision_variables
      fixed_timestep uninitialized 1 (Some val) traj_init_lc traj_init_vc guess
      = Inl OutOfRange"
    by (rule SetInitialForceTrajectory_overrun
        [where fv = "[52, 53, 54, 55, 56, 57, 58, 59, 60]" and c = 3])
       (simp_all add: ex_program_def ex_stopped_def elem_at_def)
  have seed: "seed_guess ar ex_program 0 (Some val) (N ex_program - 1) time
                (map uninitialized [0 ..< length [38 :: nat, 39, 40, 41, 42, 43]])
              = Inl OutOfRange" for time
    by (rule seed_guess_overrun [where c = 3])
       (simp_all add: ex_program_def ex_stopped_def elem_at_def)
  have c: "SetInitialForceTrajectory ar ex_program timesteps_are_decision_variables
      fixed_timestep uninitialized 0 None (Some val) traj_init_vc guess = Inl OutOfRange"
    unfolding SetInitialForceTrajectory_def Let_def
    using seed
    by (cases timesteps_are_decision_variables)
       (simp_all add: ex_program_def ex_stopped_def elem_at_def seed_guess_def and_then_def
          require_def)
  from a b c show ?thesis by (simp add: ex_program_def ex_stopped_def)
qed

end
